theory Spec2Isabelle
  imports Main "HOL-Library.AList" "HOL-Library.Sublist"
begin

section \<open>Rotation of a three-slot API key and its propagation into load-balancer rules\<close>

text \<open>
  A shallow embedding of \<^verbatim>\<open>alb_apikeys_rotator/lambda_function.py\<close>.

  Python strings are modelled as \<^typ>\<open>string\<close>, one \<^typ>\<open>char\<close> per code point, so the
  model covers the code points 0 to 255. Exceptions are values of the type \<open>error\<close>;
  a function that can raise returns \<open>error + 'a\<close>, and a function that calls a service
  also returns the state of that service, so that the calls made before a raise are kept.
\<close>

subsection \<open>Exceptions\<close>

datatype error =
    KeyError string
  | ValueError string
  | JSONDecodeError
  | ParamValidationError
  | ResourceNotFoundException
  | InvalidRequestException
  | ResourceExistsException
  | InvalidParameterException
  | LoadBalancerNotFoundException
  | ListenerNotFoundException
  | RuleNotFoundException

subsection \<open>Characters and strings\<close>

definition dquote :: char where
  "dquote = CHR 0x22"

definition squote :: char where
  "squote = CHR 0x27"

definition backslash :: char where
  "backslash = CHR 0x5C"

text \<open>\<^verbatim>\<open>s.replace(old, new)\<close> for a one-character \<^verbatim>\<open>old\<close>.\<close>

definition replace_char :: "char \<Rightarrow> string \<Rightarrow> string \<Rightarrow> string" where
  "replace_char old new s = concat (map (\<lambda>c. if c = old then new else [c]) s)"

text \<open>\<^verbatim>\<open>str.lower()\<close> on the code points below 256: the ASCII capitals and the
  Latin-1 capitals (all of 0xC0 to 0xDE but the multiplication sign) move up by 32.\<close>

definition lower_char :: "char \<Rightarrow> char" where
  "lower_char c =
     (let n = (of_char c :: nat)
      in if (65 \<le> n \<and> n \<le> 90) \<or> (192 \<le> n \<and> n \<le> 222 \<and> n \<noteq> 215)
         then char_of (n + 32) else c)"

definition lower :: "string \<Rightarrow> string" where
  "lower s = map lower_char s"

text \<open>\<^verbatim>\<open>a in b\<close> for two strings: \<^verbatim>\<open>a\<close> occurs in \<^verbatim>\<open>b\<close> as a contiguous run.\<close>

fun str_in :: "string \<Rightarrow> string \<Rightarrow> bool" where
  "str_in a [] = (a = [])"
| "str_in a (c # cs) = (prefix a (c # cs) \<or> str_in a cs)"

subsection \<open>The \<^verbatim>\<open>json\<close> module on flat objects of strings\<close>

text \<open>
  The secret's payload is a JSON object whose members are strings. \<open>json_dumps\<close> is
  \<^verbatim>\<open>json.dumps\<close> with its defaults on a \<^verbatim>\<open>dict\<close> from \<^verbatim>\<open>str\<close> to \<^verbatim>\<open>str\<close> (insertion order,
  separators \<^verbatim>\<open>", "\<close> and \<^verbatim>\<open>": "\<close>, \<^verbatim>\<open>ensure_ascii\<close>). A \<^verbatim>\<open>dict\<close> is an association list in
  insertion order with distinct keys.
\<close>

type_synonym pydict = "(string \<times> string) list"

definition hexdigit :: "nat \<Rightarrow> char" where
  "hexdigit n = ''0123456789abcdef'' ! (n mod 16)"

definition encode_char :: "char \<Rightarrow> string" where
  "encode_char c =
     (let n = (of_char c :: nat)
      in if c = dquote then [backslash, dquote]
         else if c = backslash then [backslash, backslash]
         else if n = 10 then [backslash, CHR ''n'']
         else if n = 13 then [backslash, CHR ''r'']
         else if n = 9 then [backslash, CHR ''t'']
         else if n = 8 then [backslash, CHR ''b'']
         else if n = 12 then [backslash, CHR ''f'']
         else if 32 \<le> n \<and> n \<le> 126 then [c]
         else [backslash, CHR ''u'', CHR ''0'', CHR ''0'', hexdigit (n div 16), hexdigit n])"

definition encode_string :: "string \<Rightarrow> string" where
  "encode_string s = dquote # concat (map encode_char s) @ [dquote]"

definition encode_item :: "string \<times> string \<Rightarrow> string" where
  "encode_item kv = encode_string (fst kv) @ '': '' @ encode_string (snd kv)"

fun join :: "string \<Rightarrow> string list \<Rightarrow> string" where
  "join sep [] = []"
| "join sep [x] = x"
| "join sep (x # y # ys) = x @ sep @ join sep (y # ys)"

definition json_dumps :: "pydict \<Rightarrow> string" where
  "json_dumps d = ''{'' @ join '', '' (map encode_item d) @ ''}''"

text \<open>
  \<open>json_loads\<close> is \<^verbatim>\<open>json.loads\<close> on the documents that are objects with string members
  over the code points below 256. Every other document, the well-formed ones with a
  number, a list, a nested object or a wider code point included, is reported as
  \<open>JSONDecodeError\<close>: the model is exact on flat objects of strings only.
\<close>

definition is_ws :: "char \<Rightarrow> bool" where
  "is_ws c = (c = CHR '' '' \<or> c = CHR 0x09 \<or> c = CHR 0x0A \<or> c = CHR 0x0D)"

definition skip_ws :: "string \<Rightarrow> string" where
  "skip_ws s = dropWhile is_ws s"

definition hexval :: "char \<Rightarrow> nat option" where
  "hexval c =
     (let n = (of_char c :: nat)
      in if 48 \<le> n \<and> n \<le> 57 then Some (n - 48)
         else if 97 \<le> n \<and> n \<le> 102 then Some (n - 87)
         else if 65 \<le> n \<and> n \<le> 70 then Some (n - 55)
         else None)"

definition unescape :: "char \<Rightarrow> char option" where
  "unescape e =
     (if e = dquote then Some dquote
      else if e = backslash then Some backslash
      else if e = CHR ''/'' then Some (CHR ''/'')
      else if e = CHR ''b'' then Some (CHR 0x08)
      else if e = CHR ''f'' then Some (CHR 0x0C)
      else if e = CHR ''n'' then Some (CHR 0x0A)
      else if e = CHR ''r'' then Some (CHR 0x0D)
      else if e = CHR ''t'' then Some (CHR 0x09)
      else None)"

definition decode_u :: "string \<Rightarrow> char option" where
  "decode_u h =
     (case map hexval h of
        [Some a, Some b, Some c, Some d] \<Rightarrow>
          (if a = 0 \<and> b = 0 then Some (char_of (16 * c + d)) else None)
      | _ \<Rightarrow> None)"

text \<open>\<open>scanstring s\<close> reads a string literal whose opening quote has been consumed and
  returns its content with the input left after the closing quote.\<close>

fun scanstring :: "string \<Rightarrow> (string \<times> string) option" where
  "scanstring [] = None"
| "scanstring (c # cs) =
     (if c = dquote then Some ([], cs)
      else if c = backslash then
        (case cs of
           [] \<Rightarrow> None
         | e # r \<Rightarrow>
             if e = CHR ''u'' then
               (case decode_u (take 4 r) of
                  None \<Rightarrow> None
                | Some ch \<Rightarrow> map_option (\<lambda>(v, rest). (ch # v, rest)) (scanstring (drop 4 r)))
             else
               (case unescape e of
                  None \<Rightarrow> None
                | Some ch \<Rightarrow> map_option (\<lambda>(v, rest). (ch # v, rest)) (scanstring r)))
      else if (of_char c :: nat) < 32 then None
      else map_option (\<lambda>(v, rest). (c # v, rest)) (scanstring cs))"

text \<open>\<open>parse_pairs s\<close> reads the members of an object from the first key on (its opening
  quote consumed) up to the closing brace, and returns them in the order read.\<close>

function parse_pairs :: "string \<Rightarrow> ((string \<times> string) list \<times> string) option" where
  "parse_pairs s =
     (case scanstring s of
        None \<Rightarrow> None
      | Some (k, r1) \<Rightarrow>
          (case skip_ws r1 of
             [] \<Rightarrow> None
           | c1 # r2 \<Rightarrow>
               if c1 \<noteq> CHR '':'' then None
               else
                 (case skip_ws r2 of
                    [] \<Rightarrow> None
                  | c2 # r3 \<Rightarrow>
                      if c2 \<noteq> dquote then None
                      else
                        (case scanstring r3 of
                           None \<Rightarrow> None
                         | Some (v, r4) \<Rightarrow>
                             (case skip_ws r4 of
                                [] \<Rightarrow> None
                              | c3 # r5 \<Rightarrow>
                                  if c3 = CHR ''}'' then Some ([(k, v)], r5)
                                  else if c3 \<noteq> CHR '','' then None
                                  else
                                    (case skip_ws r5 of
                                       [] \<Rightarrow> None
                                     | c4 # r6 \<Rightarrow>
                                         if c4 \<noteq> dquote then None
                                         else map_option (\<lambda>(ps, rest). ((k, v) # ps, rest))
                                                (parse_pairs r6)))))))"
  by pat_completeness auto
termination
proof (relation "measure length", goal_cases)
  case 1
  show ?case by simp
next
  case (2 s x2 k r1 c1 r2 c2 r3 x2a v r4 c3 r5 c4 r6)
  have scan: "length r < length t" if "scanstring t = Some (w, r)" for t w r
    using that
  proof (induction t arbitrary: w r rule: scanstring.induct)
    case 1
    then show ?case by simp
  next
    case (2 c cs)
    then show ?case
      by (fastforce split: if_splits list.splits option.splits)
  qed
  have ws: "length (skip_ws t) \<le> length t" for t
    by (simp add: skip_ws_def length_dropWhile_le)
  have a: "length r1 < length s" using 2 scan [of s k r1] by auto
  have b: "length r2 < length r1" using ws [of r1] 2 by simp
  have c: "length r3 < length r2" using ws [of r2] 2 by simp
  have d: "length r4 < length r3" using 2 scan [of r3 v r4] by auto
  have e: "length r5 < length r4" using ws [of r4] 2 by simp
  have f: "length r6 < length r5" using ws [of r5] 2 by simp
  show ?case using a b c d e f by simp
qed

declare parse_pairs.simps [simp del]

text \<open>\<^verbatim>\<open>dict(pairs)\<close>: a key read twice keeps its first position and its last value.\<close>

definition dict_of_pairs :: "(string \<times> string) list \<Rightarrow> pydict" where
  "dict_of_pairs ps = foldl (\<lambda>d kv. AList.update (fst kv) (snd kv) d) [] ps"

definition loads_end :: "(string \<times> string) list \<Rightarrow> string \<Rightarrow> error + pydict" where
  "loads_end ps rest = (if skip_ws rest = [] then Inr (dict_of_pairs ps) else Inl JSONDecodeError)"

definition json_loads :: "string \<Rightarrow> error + pydict" where
  "json_loads s =
     (case skip_ws s of
        [] \<Rightarrow> Inl JSONDecodeError
      | c # r \<Rightarrow>
          if c \<noteq> CHR ''{'' then Inl JSONDecodeError
          else
            (case skip_ws r of
               [] \<Rightarrow> Inl JSONDecodeError
             | c2 # r2 \<Rightarrow>
                 if c2 = CHR ''}'' then loads_end [] r2
                 else if c2 \<noteq> dquote then Inl JSONDecodeError
                 else
                   (case parse_pairs r2 of
                      None \<Rightarrow> Inl JSONDecodeError
                    | Some (ps, rest) \<Rightarrow> loads_end ps rest)))"

text \<open>\<^verbatim>\<open>d[k]\<close> raises \<^verbatim>\<open>KeyError\<close> on a missing key.\<close>

definition getitem :: "pydict \<Rightarrow> string \<Rightarrow> error + string" where
  "getitem d k = (case map_of d k of None \<Rightarrow> Inl (KeyError k) | Some v \<Rightarrow> Inr v)"

subsection \<open>The random source and \<^verbatim>\<open>key_generator\<close>\<close>

text \<open>
  The module \<^verbatim>\<open>random\<close> is a state: the sequence of the numbers it will draw and the
  position reached. \<^verbatim>\<open>random.choice(seq)\<close> takes the next number modulo the length of
  \<^verbatim>\<open>seq\<close>, so every outcome of the source is the outcome of some sequence.
\<close>

record rng =
  draws :: "nat \<Rightarrow> nat"
  cursor :: nat

definition random_choice :: "'a list \<Rightarrow> rng \<Rightarrow> 'a \<times> rng" where
  "random_choice seq g = (seq ! (draws g (cursor g) mod length seq), g\<lparr>cursor := cursor g + 1\<rparr>)"

definition ascii_uppercase :: string where
  "ascii_uppercase = ''ABCDEFGHIJKLMNOPQRSTUVWXYZ''"

definition ascii_lowercase :: string where
  "ascii_lowercase = ''abcdefghijklmnopqrstuvwxyz''"

definition digits :: string where
  "digits = ''0123456789''"

definition chars :: string where
  "chars = ascii_uppercase @ ascii_lowercase @ digits"

fun key_generator :: "nat \<Rightarrow> rng \<Rightarrow> string \<times> rng" where
  "key_generator 0 g = ([], g)"
| "key_generator (Suc n) g =
     (case random_choice chars g of
        (c, g1) \<Rightarrow> (case key_generator n g1 of (cs, g2) \<Rightarrow> (c # cs, g2)))"

subsection \<open>The secret store\<close>

text \<open>
  The client \<^verbatim>\<open>secretsmanager\<close> is modelled by the state of the service. A secret has its
  rotation flag (a member that \<^verbatim>\<open>describe_secret\<close> leaves out when rotation was never
  configured), the dictionary from version ids to staging labels in the order
  \<^verbatim>\<open>describe_secret\<close> lists it, and the \<^verbatim>\<open>SecretString\<close> of the versions that have a value
  (a version that the rotation has announced carries its label before it has a value).
  Version ids are opaque strings. The state also keeps every writing call issued, in
  order, whatever its outcome.
\<close>

record secret =
  RotationEnabled :: "bool option"
  VersionIdsToStages :: "(string \<times> string list) list"
  SecretStrings :: "(string \<times> string) list"

datatype sm_call =
    PutSecretValue string string string "string list"
  | UpdateSecretVersionStage string string string string

record sm_state =
  secrets :: "(string \<times> secret) list"
  sm_calls :: "sm_call list"

definition describe_secret :: "string \<Rightarrow> sm_state \<Rightarrow> error + secret" where
  "describe_secret secret_id st =
     (case map_of (secrets st) secret_id of
        None \<Rightarrow> Inl ResourceNotFoundException
      | Some sec \<Rightarrow> Inr sec)"

text \<open>\<^verbatim>\<open>get_secret_value(SecretId, VersionId, VersionStage)\<close>, the version id optional.\<close>

definition get_secret_value :: "string \<Rightarrow> string option \<Rightarrow> string \<Rightarrow> sm_state \<Rightarrow> error + string" where
  "get_secret_value secret_id version_id stage st =
     (case map_of (secrets st) secret_id of
        None \<Rightarrow> Inl ResourceNotFoundException
      | Some sec \<Rightarrow>
          (case version_id of
             None \<Rightarrow>
               (case List.find (\<lambda>vs. stage \<in> set (snd vs)) (VersionIdsToStages sec) of
                  None \<Rightarrow> Inl ResourceNotFoundException
                | Some vs \<Rightarrow>
                    (case map_of (SecretStrings sec) (fst vs) of
                       None \<Rightarrow> Inl ResourceNotFoundException
                     | Some v \<Rightarrow> Inr v))
           | Some vid \<Rightarrow>
               (case map_of (SecretStrings sec) vid of
                  None \<Rightarrow> Inl ResourceNotFoundException
                | Some v \<Rightarrow>
                    (case map_of (VersionIdsToStages sec) vid of
                       None \<Rightarrow> Inl InvalidRequestException
                     | Some stages \<Rightarrow>
                         if stage \<in> set stages then Inr v else Inl InvalidRequestException))))"

text \<open>Attaching a label to a version takes it from the version that had it.\<close>

definition attach_stage :: "string \<Rightarrow> string \<Rightarrow> (string \<times> string list) list \<Rightarrow> (string \<times> string list) list" where
  "attach_stage stage vid vs =
     (let cleared = map (\<lambda>(v, stages). (v, removeAll stage stages)) vs
      in AList.update vid (stage # (case map_of cleared vid of None \<Rightarrow> [] | Some stages \<Rightarrow> stages)) cleared)"

definition put_secret_value :: "string \<Rightarrow> string \<Rightarrow> string \<Rightarrow> string list \<Rightarrow> sm_state \<Rightarrow> (error + unit) \<times> sm_state" where
  "put_secret_value secret_id token secret_string stages st =
     (let st1 = st\<lparr>sm_calls := sm_calls st @ [PutSecretValue secret_id token secret_string stages]\<rparr>
      in case map_of (secrets st) secret_id of
           None \<Rightarrow> (Inl ResourceNotFoundException, st1)
         | Some sec \<Rightarrow>
             (case map_of (SecretStrings sec) token of
                Some v \<Rightarrow> (if v = secret_string then (Inr (), st1) else (Inl ResourceExistsException, st1))
              | None \<Rightarrow>
                  (Inr (),
                   st1\<lparr>secrets := AList.update secret_id
                     (sec\<lparr>VersionIdsToStages := foldr (\<lambda>stage. attach_stage stage token) stages (VersionIdsToStages sec),
                          SecretStrings := AList.update token secret_string (SecretStrings sec)\<rparr>)
                     (secrets st)\<rparr>)))"

text \<open>\<^verbatim>\<open>update_secret_version_stage\<close>: \<^verbatim>\<open>None\<close> for \<^verbatim>\<open>RemoveFromVersionId\<close> is refused by the
  client before any request is sent.\<close>

definition update_secret_version_stage :: "string \<Rightarrow> string \<Rightarrow> string \<Rightarrow> string option \<Rightarrow> sm_state \<Rightarrow> (error + unit) \<times> sm_state" where
  "update_secret_version_stage secret_id stage move_to remove_from st =
     (case remove_from of
        None \<Rightarrow> (Inl ParamValidationError, st)
      | Some old \<Rightarrow>
          (let st1 = st\<lparr>sm_calls := sm_calls st @ [UpdateSecretVersionStage secret_id stage move_to old]\<rparr>
           in case map_of (secrets st) secret_id of
                None \<Rightarrow> (Inl ResourceNotFoundException, st1)
              | Some sec \<Rightarrow>
                  (case map_of (VersionIdsToStages sec) move_to of
                     None \<Rightarrow> (Inl ResourceNotFoundException, st1)
                   | Some _ \<Rightarrow>
                       (case map_of (VersionIdsToStages sec) old of
                          None \<Rightarrow> (Inl InvalidParameterException, st1)
                        | Some stages \<Rightarrow>
                            if stage \<notin> set stages then (Inl InvalidParameterException, st1)
                            else (Inr (),
                                  st1\<lparr>secrets := AList.update secret_id
                                    (sec\<lparr>VersionIdsToStages := attach_stage stage move_to (VersionIdsToStages sec)\<rparr>)
                                    (secrets st)\<rparr>)))))"

subsection \<open>The load-balancer control plane\<close>

text \<open>
  The client \<^verbatim>\<open>elbv2\<close> is modelled by what its three describe calls answer and by the list
  of the \<^verbatim>\<open>modify_rule\<close> calls submitted, in order. A rule condition is a dictionary: the
  members the source tests for are optional here, and \<open>OtherMembers\<close> stands for all the
  members the source never reads. The type of the actions is left open.
\<close>

record load_balancer =
  LoadBalancerName :: string
  LoadBalancerArn :: string

record listener =
  ListenerArn :: string

record http_header_config =
  HttpHeaderName :: "string option"
  Values :: "string list option"

record 'm condition =
  Field :: "string option"
  HttpHeaderConfig :: "http_header_config option"
  OtherMembers :: 'm

record ('m, 'a) rule =
  RuleArn :: string
  IsDefault :: bool
  Conditions :: "'m condition list"
  Actions :: 'a

datatype ('m, 'a) elb_call = ModifyRule string "'m condition list" 'a

record ('m, 'a) elb_state =
  LoadBalancers :: "load_balancer list option"
  Listeners :: "(string \<times> listener list) list"
  Rules :: "(string \<times> ('m, 'a) rule list) list"
  elb_calls :: "('m, 'a) elb_call list"

definition describe_listeners :: "string \<Rightarrow> ('m, 'a) elb_state \<Rightarrow> error + listener list" where
  "describe_listeners alb_arn st =
     (case map_of (Listeners st) alb_arn of
        None \<Rightarrow> Inl LoadBalancerNotFoundException
      | Some ls \<Rightarrow> Inr ls)"

definition describe_rules :: "string \<Rightarrow> ('m, 'a) elb_state \<Rightarrow> error + ('m, 'a) rule list" where
  "describe_rules listener_arn st =
     (case map_of (Rules st) listener_arn of
        None \<Rightarrow> Inl ListenerNotFoundException
      | Some rs \<Rightarrow> Inr rs)"

definition modify_rule :: "string \<Rightarrow> 'm condition list \<Rightarrow> 'a \<Rightarrow> ('m, 'a) elb_state \<Rightarrow> ('m, 'a) elb_state" where
  "modify_rule rule_arn conditions actions st =
     st\<lparr>elb_calls := elb_calls st @ [ModifyRule rule_arn conditions actions]\<rparr>"

subsection \<open>The rotation function\<close>

text \<open>
  The calls of the logger are left out, but for what they evaluate: a log line that
  reads a member of a dictionary raises where the member is missing, and that stays.
  The return value of every client call but the describe and get calls is ignored by the
  source, and so it is here.
\<close>

text \<open>\<^verbatim>\<open>get_secret\<close> reads by staging label alone: its \<^verbatim>\<open>token\<close> argument is not used.\<close>

definition get_secret :: "string \<Rightarrow> string \<Rightarrow> string option \<Rightarrow> sm_state \<Rightarrow> error + string" where
  "get_secret secret_id stage token st = get_secret_value secret_id None stage st"

text \<open>
  The body of \<^verbatim>\<open>for condition in new_conditions\<close> on one condition. The value list is also
  read for the log line before it is replaced, so a matching condition without
  \<^verbatim>\<open>Values\<close> raises.
\<close>

definition update_condition :: "string \<Rightarrow> 'm condition \<Rightarrow> error + 'm condition" where
  "update_condition secret_value condition =
     (case Field condition of
        None \<Rightarrow> Inr condition
      | Some f \<Rightarrow>
          if f \<noteq> ''http-header'' then Inr condition
          else
            (case HttpHeaderConfig condition of
               None \<Rightarrow> Inl (KeyError ''HttpHeaderConfig'')
             | Some h \<Rightarrow>
                 (case HttpHeaderName h of
                    None \<Rightarrow> Inr condition
                  | Some n \<Rightarrow>
                      if n \<noteq> ''X-AWS-API-KEY'' then Inr condition
                      else
                        (case Values h of
                           None \<Rightarrow> Inl (KeyError ''Values'')
                         | Some _ \<Rightarrow>
                             Inr (condition\<lparr>HttpHeaderConfig := Some (h\<lparr>Values := Some [secret_value]\<rparr>)\<rparr>)))))"

fun update_conditions :: "string \<Rightarrow> 'm condition list \<Rightarrow> error + 'm condition list" where
  "update_conditions secret_value [] = Inr []"
| "update_conditions secret_value (c # cs) =
     (case update_condition secret_value c of
        Inl e \<Rightarrow> Inl e
      | Inr c' \<Rightarrow>
          (case update_conditions secret_value cs of
             Inl e \<Rightarrow> Inl e
           | Inr cs' \<Rightarrow> Inr (c' # cs')))"

text \<open>\<^verbatim>\<open>for rule in rule_response["Rules"]\<close>.\<close>

fun rules_loop :: "string \<Rightarrow> ('m, 'a) rule list \<Rightarrow> ('m, 'a) elb_state \<Rightarrow> (error + unit) \<times> ('m, 'a) elb_state" where
  "rules_loop secret_value [] st = (Inr (), st)"
| "rules_loop secret_value (rule # rules) st =
     (if IsDefault rule then rules_loop secret_value rules st
      else
        (case update_conditions secret_value (Conditions rule) of
           Inl e \<Rightarrow> (Inl e, st)
         | Inr new_conditions \<Rightarrow>
             rules_loop secret_value rules
               (modify_rule (RuleArn rule) new_conditions (Actions rule) st)))"

text \<open>\<^verbatim>\<open>for listener in listener_response["Listeners"]\<close>.\<close>

fun listeners_loop :: "string \<Rightarrow> listener list \<Rightarrow> ('m, 'a) elb_state \<Rightarrow> (error + unit) \<times> ('m, 'a) elb_state" where
  "listeners_loop secret_value [] st = (Inr (), st)"
| "listeners_loop secret_value (l # ls) st =
     (case describe_rules (ListenerArn l) st of
        Inl e \<Rightarrow> (Inl e, st)
      | Inr rules \<Rightarrow>
          (case rules_loop secret_value rules st of
             (Inl e, st') \<Rightarrow> (Inl e, st')
           | (Inr _, st') \<Rightarrow> listeners_loop secret_value ls st'))"

text \<open>\<^verbatim>\<open>for alb in response['LoadBalancers']\<close>; \<open>alb_to_rotate\<close> is the environment variable
  \<^verbatim>\<open>ALBNAME\<close>, the empty string when it is not set.\<close>

definition rotate_this_alb :: "string \<Rightarrow> load_balancer \<Rightarrow> bool" where
  "rotate_this_alb alb_to_rotate alb =
     (alb_to_rotate = [] \<or> str_in alb_to_rotate (LoadBalancerName alb))"

fun albs_loop :: "string \<Rightarrow> string \<Rightarrow> load_balancer list \<Rightarrow> ('m, 'a) elb_state \<Rightarrow> (error + unit) \<times> ('m, 'a) elb_state" where
  "albs_loop alb_to_rotate secret_value [] st = (Inr (), st)"
| "albs_loop alb_to_rotate secret_value (alb # albs) st =
     (if rotate_this_alb alb_to_rotate alb then
        (case describe_listeners (LoadBalancerArn alb) st of
           Inl e \<Rightarrow> (Inl e, st)
         | Inr listeners \<Rightarrow>
             (case listeners_loop secret_value listeners st of
                (Inl e, st') \<Rightarrow> (Inl e, st')
              | (Inr _, st') \<Rightarrow> albs_loop alb_to_rotate secret_value albs st'))
      else albs_loop alb_to_rotate secret_value albs st)"

definition set_api_key_in_alb :: "string \<Rightarrow> string option \<Rightarrow> ('m, 'a) elb_state \<Rightarrow> (error + int) \<times> ('m, 'a) elb_state" where
  "set_api_key_in_alb alb_to_rotate secret_value st =
     (case secret_value of
        None \<Rightarrow> (Inr 1, st)
      | Some key \<Rightarrow>
          (case LoadBalancers st of
             None \<Rightarrow> (Inr 0, st)
           | Some albs \<Rightarrow>
               (case albs_loop alb_to_rotate key albs st of
                  (Inl e, st') \<Rightarrow> (Inl e, st')
                | (Inr _, st') \<Rightarrow> (Inr 0, st'))))"

text \<open>The string that \<^verbatim>\<open>create_secret\<close> stores: the serialized dictionary with its
  backslashes removed.\<close>

definition secret_string_of :: "pydict \<Rightarrow> string" where
  "secret_string_of new_secret_value = replace_char backslash [] (json_dumps new_secret_value)"

definition create_secret :: "string \<Rightarrow> string \<Rightarrow> sm_state \<Rightarrow> rng \<Rightarrow> (error + int) \<times> sm_state \<times> rng" where
  "create_secret secret_id token st g =
     (case get_secret secret_id ''AWSCURRENT'' (Some token) st of
        Inl e \<Rightarrow> (Inl e, st, g)
      | Inr old_secret_value \<Rightarrow>
          (case json_loads old_secret_value of
             Inl e \<Rightarrow> (Inl e, st, g)
           | Inr _ \<Rightarrow>
               (case get_secret_value secret_id (Some token) ''AWSPENDING'' st of
                  Inr pending_secret_value \<Rightarrow> (Inr 0, st, g)
                | Inl e \<Rightarrow>
                    if e \<noteq> ResourceNotFoundException then (Inl e, st, g)
                    else
                      (case json_loads old_secret_value of
                         Inl e \<Rightarrow> (Inl e, st, g)
                       | Inr old_secret_value_json \<Rightarrow>
                           (case getitem old_secret_value_json ''key2'' of
                              Inl e \<Rightarrow> (Inl e, st, g)
                            | Inr k2 \<Rightarrow>
                                (case getitem old_secret_value_json ''key3'' of
                                   Inl e \<Rightarrow> (Inl e, st, g)
                                 | Inr k3 \<Rightarrow>
                                     (case key_generator 16 g of
                                        (k, g') \<Rightarrow>
                                          (let new_secret_value = [(''key1'', k2), (''key2'', k3), (''key3'', k)]
                                           in case put_secret_value secret_id token
                                                     (secret_string_of new_secret_value) [''AWSPENDING''] st of
                                                (Inl e, st') \<Rightarrow> (Inl e, st', g')
                                              | (Inr _, st') \<Rightarrow> (Inr 0, st', g')))))))))"

text \<open>\<^verbatim>\<open>set_secret\<close> writes nothing to the secret store, so it returns the state of the
  control plane only.\<close>

definition set_secret :: "string \<Rightarrow> string \<Rightarrow> string \<Rightarrow> sm_state \<Rightarrow> ('m, 'a) elb_state \<Rightarrow> (error + int) \<times> ('m, 'a) elb_state" where
  "set_secret alb_to_rotate secret_id token st est =
     (case get_secret secret_id ''AWSPENDING'' (Some token) st of
        Inl e \<Rightarrow> (Inl e, est)
      | Inr secret_value \<Rightarrow>
          (case json_loads (replace_char backslash [] (replace_char squote [dquote] secret_value)) of
             Inl e \<Rightarrow> (Inl e, est)
           | Inr secret_value_json \<Rightarrow>
               (case getitem secret_value_json ''key3'' of
                  Inl e \<Rightarrow> (Inl e, est)
                | Inr key3 \<Rightarrow>
                    (case set_api_key_in_alb alb_to_rotate (Some key3) est of
                       (Inl e, est') \<Rightarrow> (Inl e, est')
                     | (Inr _, est') \<Rightarrow> (Inr 0, est')))))"

definition test_secret :: "string \<Rightarrow> string \<Rightarrow> sm_state \<Rightarrow> error + int" where
  "test_secret secret_id token st =
     (case get_secret secret_id ''AWSCURRENT'' (Some token) st of
        Inl e \<Rightarrow> Inl e
      | Inr secret_value_current \<Rightarrow>
          (case get_secret secret_id ''AWSPENDING'' (Some token) st of
             Inl e \<Rightarrow> Inl e
           | Inr secret_value_pending \<Rightarrow> Inr 0))"

text \<open>
  The loop of \<^verbatim>\<open>finish_secret\<close> stops at the first version id, in the order of the
  dictionary, whose labels hold \<^verbatim>\<open>AWSCURRENT\<close>. The function returns \<^verbatim>\<open>None\<close> from inside
  the loop and \<^verbatim>\<open>0\<close> at its end.
\<close>

definition first_current :: "(string \<times> string list) list \<Rightarrow> string option" where
  "first_current versions =
     List.find (\<lambda>version. case map_of versions version of
                             None \<Rightarrow> False
                           | Some stages \<Rightarrow> ''AWSCURRENT'' \<in> set stages)
               (map fst versions)"

definition finish_secret :: "string \<Rightarrow> string \<Rightarrow> sm_state \<Rightarrow> (error + int option) \<times> sm_state" where
  "finish_secret secret_id token st =
     (case get_secret secret_id ''AWSPENDING'' (Some token) st of
        Inl e \<Rightarrow> (Inl e, st)
      | Inr secret_value \<Rightarrow>
          (case describe_secret secret_id st of
             Inl e \<Rightarrow> (Inl e, st)
           | Inr metadata \<Rightarrow>
               (let current_version = first_current (VersionIdsToStages metadata)
                in if current_version = Some token then (Inr None, st)
                   else
                     (case update_secret_version_stage secret_id ''AWSCURRENT'' token current_version st of
                        (Inl e, st') \<Rightarrow> (Inl e, st')
                      | (Inr _, st') \<Rightarrow> (Inr (Some 0), st')))))"

subsection \<open>The entry point\<close>

record event =
  Step :: string
  SecretId :: string
  ClientRequestToken :: "string option"

record response =
  statusCode :: int
  body :: string

record ('m, 'a) world =
  sm :: sm_state
  elb :: "('m, 'a) elb_state"
  rand :: rng

definition done_response :: response where
  "done_response = \<lparr>statusCode = 200, body = ''done.''\<rparr>"

definition not_enabled_msg :: "string \<Rightarrow> string" where
  "not_enabled_msg secret_id = ''Secret '' @ secret_id @ '' is not enabled for rotation''"

definition no_stage_msg :: "string \<Rightarrow> string \<Rightarrow> string" where
  "no_stage_msg token secret_id =
     ''Secret version '' @ token @ '' has no stage for rotation of secret '' @ secret_id @ ''.''"

definition not_pending_msg :: "string \<Rightarrow> string \<Rightarrow> string" where
  "not_pending_msg token secret_id =
     ''Secret version '' @ token @ '' not set as AWSPENDING for rotation of secret '' @ secret_id @ ''.''"

text \<open>The chain of \<^verbatim>\<open>if\<close>/\<^verbatim>\<open>elif\<close> on \<^verbatim>\<open>step.lower()\<close> and the final \<^verbatim>\<open>return\<close>.\<close>

definition dispatch :: "string \<Rightarrow> string \<Rightarrow> string \<Rightarrow> string \<Rightarrow> ('m, 'a) world \<Rightarrow> (error + response option) \<times> ('m, 'a) world" where
  "dispatch alb_to_rotate step secret_id token w =
     (if lower step = ''createsecret'' then
        (case create_secret secret_id token (sm w) (rand w) of
           (Inl e, st', g') \<Rightarrow> (Inl e, w\<lparr>sm := st', rand := g'\<rparr>)
         | (Inr _, st', g') \<Rightarrow> (Inr (Some done_response), w\<lparr>sm := st', rand := g'\<rparr>))
      else if lower step = ''setsecret'' then
        (case set_secret alb_to_rotate secret_id token (sm w) (elb w) of
           (Inl e, est') \<Rightarrow> (Inl e, w\<lparr>elb := est'\<rparr>)
         | (Inr _, est') \<Rightarrow> (Inr (Some done_response), w\<lparr>elb := est'\<rparr>))
      else if lower step = ''testsecret'' then
        (case test_secret secret_id token (sm w) of
           Inl e \<Rightarrow> (Inl e, w)
         | Inr _ \<Rightarrow> (Inr (Some done_response), w))
      else if lower step = ''finishsecret'' then
        (case finish_secret secret_id token (sm w) of
           (Inl e, st') \<Rightarrow> (Inl e, w\<lparr>sm := st'\<rparr>)
         | (Inr _, st') \<Rightarrow> (Inr (Some done_response), w\<lparr>sm := st'\<rparr>))
      else (Inr (Some done_response), w))"

definition lambda_handler :: "string \<Rightarrow> event \<Rightarrow> ('m, 'a) world \<Rightarrow> (error + response option) \<times> ('m, 'a) world" where
  "lambda_handler alb_to_rotate event w =
     (let step = Step event;
          secret_id = SecretId event;
          token = (case ClientRequestToken event of Some t \<Rightarrow> t | None \<Rightarrow> [])
      in case describe_secret secret_id (sm w) of
           Inl e \<Rightarrow> (Inl e, w)
         | Inr metadata \<Rightarrow>
             (case RotationEnabled metadata of
                None \<Rightarrow> (Inl (KeyError ''RotationEnabled''), w)
              | Some enabled \<Rightarrow>
                  if \<not> enabled then (Inl (ValueError (not_enabled_msg secret_id)), w)
                  else
                    (case map_of (VersionIdsToStages metadata) token of
                       None \<Rightarrow> (Inl (ValueError (no_stage_msg token secret_id)), w)
                     | Some stages \<Rightarrow>
                         if ''AWSCURRENT'' \<in> set stages then (Inr None, w)
                         else if ''AWSPENDING'' \<notin> set stages
                         then (Inl (ValueError (not_pending_msg token secret_id)), w)
                         else dispatch alb_to_rotate step secret_id token w)))"

subsection \<open>Vocabulary of the properties\<close>

text \<open>A character that \<open>encode_char\<close> writes as itself: printable ASCII other than the
  double quote and the backslash.\<close>

definition unescaped :: "char \<Rightarrow> bool" where
  "unescaped c =
     (32 \<le> (of_char c :: nat) \<and> (of_char c :: nat) \<le> 126 \<and> c \<noteq> dquote \<and> c \<noteq> backslash)"

text \<open>The sentinel test of the spec: the field is the header match and the header name is
  \<^verbatim>\<open>X-AWS-API-KEY\<close>.\<close>

definition matches_sentinel :: "'m condition \<Rightarrow> bool" where
  "matches_sentinel c =
     (Field c = Some ''http-header'' \<and>
      (case HttpHeaderConfig c of
         None \<Rightarrow> False
       | Some h \<Rightarrow> HttpHeaderName h = Some ''X-AWS-API-KEY''))"

text \<open>\<open>synced key c c'\<close>: \<open>c'\<close> is \<open>c\<close> with the value list of its header match set to
  \<open>[key]\<close> when \<open>c\<close> matches the sentinel, and \<open>c\<close> itself otherwise.\<close>

definition synced :: "string \<Rightarrow> 'm condition \<Rightarrow> 'm condition \<Rightarrow> bool" where
  "synced key c c' =
     (if matches_sentinel c then
        Field c' = Field c \<and> OtherMembers c' = OtherMembers c \<and>
        (case (HttpHeaderConfig c, HttpHeaderConfig c') of
           (Some h, Some h') \<Rightarrow> HttpHeaderName h' = HttpHeaderName h \<and> Values h' = Some [key]
         | _ \<Rightarrow> False)
      else c' = c)"

text \<open>All the rules the control plane can describe, over all listeners.\<close>

definition described_rules :: "('m, 'a) elb_state \<Rightarrow> ('m, 'a) rule list" where
  "described_rules st = concat (map snd (Rules st))"

fun call_arn :: "('m, 'a) elb_call \<Rightarrow> string" where
  "call_arn (ModifyRule arn conditions actions) = arn"

text \<open>\<open>update_of key r u\<close>: the call \<open>u\<close> is the update of the non-default rule \<open>r\<close>, with
  the actions of \<open>r\<close> and the conditions of \<open>r\<close> synced to \<open>key\<close>.\<close>

definition update_of :: "string \<Rightarrow> ('m, 'a) rule \<Rightarrow> ('m, 'a) elb_call \<Rightarrow> bool" where
  "update_of key r u =
     (\<not> IsDefault r \<and>
      (case u of ModifyRule arn conditions actions \<Rightarrow>
         arn = RuleArn r \<and> actions = Actions r \<and> list_all2 (synced key) (Conditions r) conditions))"

definition same_tables :: "('m, 'a) elb_state \<Rightarrow> ('m, 'a) elb_state \<Rightarrow> bool" where
  "same_tables st st' =
     (LoadBalancers st' = LoadBalancers st \<and> Listeners st' = Listeners st \<and> Rules st' = Rules st)"

definition only_updates :: "string \<Rightarrow> ('m, 'a) elb_state \<Rightarrow> ('m, 'a) elb_state \<Rightarrow> bool" where
  "only_updates key st st' =
     (same_tables st st' \<and>
      (\<exists>new. elb_calls st' = elb_calls st @ new \<and>
         (\<forall>u\<in>set new. \<exists>r\<in>set (described_rules st). update_of key r u)))"

text \<open>The token the entry point works with: the empty string when the event has none.\<close>

definition event_token :: "event \<Rightarrow> string" where
  "event_token ev = (case ClientRequestToken ev of Some t \<Rightarrow> t | None \<Rightarrow> [])"

text \<open>The text of a payload whose three values need no escape.\<close>

definition payload_text :: "string \<Rightarrow> string \<Rightarrow> string \<Rightarrow> string" where
  "payload_text b c k =
     [CHR ''{'', dquote] @ ''key1'' @ [dquote, CHR '':'', CHR '' '', dquote] @ b @
     [dquote, CHR '','', CHR '' '', dquote] @ ''key2'' @ [dquote, CHR '':'', CHR '' '', dquote] @ c @
     [dquote, CHR '','', CHR '' '', dquote] @ ''key3'' @ [dquote, CHR '':'', CHR '' '', dquote] @ k @
     [dquote, CHR ''}'']"

subsection \<open>Example data\<close>

definition quoted :: "string \<Rightarrow> string" where
  "quoted s = dquote # s @ [dquote]"

text \<open>A payload \<open>{a, b, c}\<close>, and one whose second value is \<open>b\<close>, a backslash, \<open>c\<close>
  (the backslash written with the escape JSON requires).\<close>

definition ex_current_text :: string where
  "ex_current_text =
     ''{'' @ quoted ''key1'' @ '': '' @ quoted ''a'' @ '', '' @
            quoted ''key2'' @ '': '' @ quoted ''b'' @ '', '' @
            quoted ''key3'' @ '': '' @ quoted ''c'' @ ''}''"

definition ex_escaped_text :: string where
  "ex_escaped_text =
     ''{'' @ quoted ''key1'' @ '': '' @ quoted ''a'' @ '', '' @
            quoted ''key2'' @ '': '' @ quoted (''b'' @ [backslash, backslash] @ ''c'') @ '', '' @
            quoted ''key3'' @ '': '' @ quoted ''c'' @ ''}''"

definition ex_rng :: rng where
  "ex_rng = \<lparr>draws = (\<lambda>i. 7 * i + 3), cursor = 0\<rparr>"

text \<open>A secret under rotation: \<open>v1\<close> is current, \<open>v2\<close> is announced as pending and has no
  value yet.\<close>

definition ex_secret :: "string \<Rightarrow> secret" where
  "ex_secret text =
     \<lparr>RotationEnabled = Some True,
      VersionIdsToStages = [(''v1'', [''AWSCURRENT'']), (''v2'', [''AWSPENDING''])],
      SecretStrings = [(''v1'', text)]\<rparr>"

definition ex_store :: "string \<Rightarrow> sm_state" where
  "ex_store text = \<lparr>secrets = [(''MySecret'', ex_secret text)], sm_calls = []\<rparr>"

text \<open>The secret after a finished rotation: \<open>v2\<close> is current and still pending.\<close>

definition ex_store_finished :: sm_state where
  "ex_store_finished =
     \<lparr>secrets =
        [(''MySecret'',
          \<lparr>RotationEnabled = Some True,
           VersionIdsToStages = [(''v1'', [''AWSPREVIOUS'']), (''v2'', [''AWSCURRENT'', ''AWSPENDING''])],
           SecretStrings = [(''v1'', ex_current_text), (''v2'', payload_text ''b'' ''c'' ''DKRYfmt07ELSZgnu'')]\<rparr>)],
      sm_calls = []\<rparr>"

text \<open>The same secret with rotation switched off.\<close>

definition ex_store_disabled :: sm_state where
  "ex_store_disabled =
     \<lparr>secrets = [(''MySecret'', (ex_secret ex_current_text)\<lparr>RotationEnabled := Some False\<rparr>)],
      sm_calls = []\<rparr>"

text \<open>One load balancer with one listener and three rules: a rule with the sentinel
  header, a rule with a path condition only, and the default rule.\<close>

definition ex_key_condition :: "string condition" where
  "ex_key_condition =
     \<lparr>Field = Some ''http-header'',
      HttpHeaderConfig = Some \<lparr>HttpHeaderName = Some ''X-AWS-API-KEY'', Values = Some [''old123'']\<rparr>,
      OtherMembers = []\<rparr>"

definition ex_path_condition :: "string condition" where
  "ex_path_condition =
     \<lparr>Field = Some ''path-pattern'', HttpHeaderConfig = None, OtherMembers = ''/api/*''\<rparr>"

definition ex_key_rule :: "(string, string) rule" where
  "ex_key_rule =
     \<lparr>RuleArn = ''rule-1'', IsDefault = False,
      Conditions = [ex_path_condition, ex_key_condition], Actions = ''forward tg-1''\<rparr>"

definition ex_path_rule :: "(string, string) rule" where
  "ex_path_rule =
     \<lparr>RuleArn = ''rule-2'', IsDefault = False,
      Conditions = [ex_path_condition], Actions = ''forward tg-2''\<rparr>"

definition ex_default_rule :: "(string, string) rule" where
  "ex_default_rule =
     \<lparr>RuleArn = ''rule-0'', IsDefault = True, Conditions = [], Actions = ''fixed-response 403''\<rparr>"

definition ex_elb :: "(string, string) rule list \<Rightarrow> (string, string) elb_state" where
  "ex_elb rules =
     \<lparr>LoadBalancers = Some [\<lparr>LoadBalancerName = ''alb-1'', LoadBalancerArn = ''alb-arn-1''\<rparr>],
      Listeners = [(''alb-arn-1'', [\<lparr>ListenerArn = ''listener-1''\<rparr>])],
      Rules = [(''listener-1'', rules)],
      elb_calls = []\<rparr>"

definition ex_world :: "sm_state \<Rightarrow> (string, string) world" where
  "ex_world st = \<lparr>sm = st, elb = ex_elb [ex_key_rule, ex_path_rule, ex_default_rule], rand = ex_rng\<rparr>"

definition ex_event :: "string \<Rightarrow> string \<Rightarrow> event" where
  "ex_event step token = \<lparr>Step = step, SecretId = ''MySecret'', ClientRequestToken = Some token\<rparr>"


section \<open>Properties\<close>

subsection \<open>The rule synchronizer\<close>

lemma update_condition_synced:
  "update_condition key c = Inr c' \<Longrightarrow> synced key c c'"
  by (auto simp: update_condition_def synced_def matches_sentinel_def
      split: option.splits if_splits)

lemma update_conditions_synced:
  "update_conditions key cs = Inr cs' \<Longrightarrow> list_all2 (synced key) cs cs'"
proof (induction cs arbitrary: cs')
  case Nil
  then show ?case by simp
next
  case (Cons c cs)
  then show ?case
    by (auto split: sum.splits dest: update_condition_synced)
qed

lemma update_condition_unmatched:
  assumes "\<not> matches_sentinel c"
    and "Field c = Some ''http-header'' \<longrightarrow> HttpHeaderConfig c \<noteq> None"
  shows "update_condition key c = Inr c"
  using assms
  by (auto simp: update_condition_def matches_sentinel_def split: option.splits)

lemma update_conditions_unmatched:
  assumes "\<forall>c\<in>set cs. \<not> matches_sentinel c"
    and "\<forall>c\<in>set cs. Field c = Some ''http-header'' \<longrightarrow> HttpHeaderConfig c \<noteq> None"
  shows "update_conditions key cs = Inr cs"
  using assms by (induction cs) (simp_all add: update_condition_unmatched)

lemma rules_loop_calls:
  "rules_loop key rs st = (res, st') \<Longrightarrow>
   same_tables st st' \<and>
   (\<exists>new. elb_calls st' = elb_calls st @ new \<and> (\<forall>u\<in>set new. \<exists>r\<in>set rs. update_of key r u))"
proof (induction rs arbitrary: st)
  case Nil
  then show ?case by (simp add: same_tables_def)
next
  case (Cons r rs)
  show ?case
  proof (cases "IsDefault r")
    case True
    with Cons show ?thesis by fastforce
  next
    case False
    show ?thesis
    proof (cases "update_conditions key (Conditions r)")
      case (Inl e)
      with False Cons.prems show ?thesis by (auto simp: same_tables_def)
    next
      case (Inr cs')
      let ?u = "ModifyRule (RuleArn r) cs' (Actions r)"
      let ?st1 = "modify_rule (RuleArn r) cs' (Actions r) st"
      from Inr False Cons.prems have run: "rules_loop key rs ?st1 = (res, st')" by simp
      from Cons.IH [OF run] obtain new where
        t: "same_tables ?st1 st'" and
        n: "elb_calls st' = elb_calls ?st1 @ new" and
        a: "\<forall>u\<in>set new. \<exists>r\<in>set rs. update_of key r u" by blast
      have u: "update_of key r ?u"
        using False update_conditions_synced [OF Inr] by (simp add: update_of_def)
      have "elb_calls st' = elb_calls st @ (?u # new)"
        using n by (simp add: modify_rule_def)
      moreover have "\<forall>v\<in>set (?u # new). \<exists>r\<in>set (r # rs). update_of key r v"
        using a u by auto
      moreover have "same_tables st st'"
        using t by (simp add: same_tables_def modify_rule_def)
      ultimately show ?thesis by blast
    qed
  qed
qed

lemma describe_rules_described:
  "describe_rules arn st = Inr rs \<Longrightarrow> set rs \<subseteq> set (described_rules st)"
  by (auto simp: describe_rules_def described_rules_def split: option.splits dest!: map_of_SomeD)

lemma only_updates_refl: "only_updates key st st"
  by (simp add: only_updates_def same_tables_def)

lemma only_updates_trans:
  assumes "only_updates key st st1" and "only_updates key st1 st2"
  shows "only_updates key st st2"
proof -
  from assms(1) obtain n1 where
    t1: "same_tables st st1" and c1: "elb_calls st1 = elb_calls st @ n1" and
    a1: "\<forall>u\<in>set n1. \<exists>r\<in>set (described_rules st). update_of key r u"
    unfolding only_updates_def by blast
  from assms(2) obtain n2 where
    t2: "same_tables st1 st2" and c2: "elb_calls st2 = elb_calls st1 @ n2" and
    a2: "\<forall>u\<in>set n2. \<exists>r\<in>set (described_rules st1). update_of key r u"
    unfolding only_updates_def by blast
  have d: "described_rules st1 = described_rules st"
    using t1 by (simp add: same_tables_def described_rules_def)
  have "same_tables st st2" using t1 t2 by (simp add: same_tables_def)
  moreover have "elb_calls st2 = elb_calls st @ (n1 @ n2)" using c1 c2 by simp
  moreover have "\<forall>u\<in>set (n1 @ n2). \<exists>r\<in>set (described_rules st). update_of key r u"
    using a1 a2 d by auto
  ultimately show ?thesis unfolding only_updates_def by blast
qed

lemma listeners_loop_calls:
  "listeners_loop key ls st = (res, st') \<Longrightarrow> only_updates key st st'"
proof (induction ls arbitrary: st)
  case Nil
  then show ?case by (simp add: only_updates_refl)
next
  case (Cons l ls)
  show ?case
  proof (cases "describe_rules (ListenerArn l) st")
    case (Inl e)
    with Cons.prems show ?thesis by (simp add: only_updates_refl)
  next
    case rules: (Inr rs)
    obtain r1 st1 where r: "rules_loop key rs st = (r1, st1)"
      by (cases "rules_loop key rs st")
    have o1: "only_updates key st st1"
      using rules_loop_calls [OF r] describe_rules_described [OF rules]
      unfolding only_updates_def by blast
    show ?thesis
    proof (cases r1)
      case (Inl e)
      with rules r Cons.prems o1 show ?thesis by simp
    next
      case (Inr x)
      with rules r Cons.prems have "listeners_loop key ls st1 = (res, st')" by simp
      from o1 Cons.IH [OF this] show ?thesis by (rule only_updates_trans)
    qed
  qed
qed

lemma albs_loop_calls:
  "albs_loop a key albs st = (res, st') \<Longrightarrow> only_updates key st st'"
proof (induction albs arbitrary: st)
  case Nil
  then show ?case by (simp add: only_updates_refl)
next
  case (Cons alb albs)
  show ?case
  proof (cases "rotate_this_alb a alb")
    case False
    with Cons show ?thesis by simp
  next
    case True
    show ?thesis
    proof (cases "describe_listeners (LoadBalancerArn alb) st")
      case (Inl e)
      with True Cons.prems show ?thesis by (simp add: only_updates_refl)
    next
      case listeners: (Inr ls)
      obtain r1 st1 where r: "listeners_loop key ls st = (r1, st1)"
        by (cases "listeners_loop key ls st")
      have o1: "only_updates key st st1" using listeners_loop_calls [OF r] .
      show ?thesis
      proof (cases r1)
        case (Inl e)
        with listeners True r Cons.prems o1 show ?thesis by simp
      next
        case (Inr x)
        with listeners True r Cons.prems have "albs_loop a key albs st1 = (res, st')" by simp
        from o1 Cons.IH [OF this] show ?thesis by (rule only_updates_trans)
      qed
    qed
  qed
qed

lemma set_api_key_in_alb_calls:
  assumes "set_api_key_in_alb a (Some key) st = (res, st')"
  shows "only_updates key st st'"
proof (cases "LoadBalancers st")
  case None
  with assms show ?thesis by (simp add: set_api_key_in_alb_def only_updates_refl)
next
  case (Some albs)
  obtain r1 st1 where r: "albs_loop a key albs st = (r1, st1)"
    by (cases "albs_loop a key albs st")
  from assms Some r have "st' = st1"
    by (cases r1) (simp_all add: set_api_key_in_alb_def)
  with albs_loop_calls [OF r] show ?thesis by simp
qed

text \<open>
  C2. The rule synchronizer never submits an update for a default rule: the loop over
  the rules passes a default rule without touching the state, and whatever the tables of
  the control plane, the target key and the outcome of the run, every update the run
  submits carries the identifier of a described rule that is not default.
\<close>

theorem default_rules_never_updated:
  "(IsDefault r \<longrightarrow> rules_loop key (r # rs) st = rules_loop key rs st) \<and>
   (set_api_key_in_alb a secret_value st = (res, st') \<longrightarrow>
      Rules st' = Rules st \<and>
      (\<exists>new. elb_calls st' = elb_calls st @ new \<and>
         (\<forall>u\<in>set new. \<exists>r\<in>set (described_rules st). \<not> IsDefault r \<and> call_arn u = RuleArn r)))"
proof (intro conjI impI)
  show "rules_loop key (r # rs) st = rules_loop key rs st" if "IsDefault r"
    using that by simp
next
  assume run: "set_api_key_in_alb a secret_value st = (res, st')"
  have "Rules st' = Rules st \<and>
      (\<exists>new. elb_calls st' = elb_calls st @ new \<and>
         (\<forall>u\<in>set new. \<exists>r\<in>set (described_rules st). \<not> IsDefault r \<and> call_arn u = RuleArn r))"
  proof (cases secret_value)
    case None
    with run show ?thesis by (simp add: set_api_key_in_alb_def)
  next
    case (Some k)
    from set_api_key_in_alb_calls [OF run [unfolded Some]] obtain new where
      t: "same_tables st st'" and c: "elb_calls st' = elb_calls st @ new" and
      a: "\<forall>u\<in>set new. \<exists>r\<in>set (described_rules st). update_of k r u"
      unfolding only_updates_def by blast
    have "\<forall>u\<in>set new. \<exists>r\<in>set (described_rules st). \<not> IsDefault r \<and> call_arn u = RuleArn r"
    proof
      fix u assume "u \<in> set new"
      with a obtain r where r: "r \<in> set (described_rules st)" and u: "update_of k r u" by blast
      from u have "\<not> IsDefault r \<and> call_arn u = RuleArn r"
        by (cases u) (simp add: update_of_def)
      with r show "\<exists>r\<in>set (described_rules st). \<not> IsDefault r \<and> call_arn u = RuleArn r" by blast
    qed
    with t c show ?thesis by (auto simp: same_tables_def)
  qed
  then show "Rules st' = Rules st"
    and "\<exists>new. elb_calls st' = elb_calls st @ new \<and>
         (\<forall>u\<in>set new. \<exists>r\<in>set (described_rules st). \<not> IsDefault r \<and> call_arn u = RuleArn r)"
    by simp_all
qed

theorem default_rules_never_updated_witness:
  "IsDefault ex_default_rule \<and>
   rules_loop ''newKey99'' [ex_default_rule] (ex_elb [ex_default_rule]) = (Inr (), ex_elb [ex_default_rule]) \<and>
   set_api_key_in_alb [] (Some ''newKey99'') (ex_elb [ex_key_rule, ex_path_rule, ex_default_rule]) =
     (Inr 0, (ex_elb [ex_key_rule, ex_path_rule, ex_default_rule])
        \<lparr>elb_calls :=
           [ModifyRule ''rule-1''
              [ex_path_condition,
               ex_key_condition\<lparr>HttpHeaderConfig :=
                 Some \<lparr>HttpHeaderName = Some ''X-AWS-API-KEY'', Values = Some [''newKey99'']\<rparr>\<rparr>]
              ''forward tg-1'',
            ModifyRule ''rule-2'' [ex_path_condition] ''forward tg-2'']\<rparr>) \<and>
   (\<exists>new. elb_calls (snd (set_api_key_in_alb [] (Some ''newKey99'') (ex_elb [ex_key_rule, ex_path_rule, ex_default_rule])))
             = elb_calls (ex_elb [ex_key_rule, ex_path_rule, ex_default_rule]) @ new \<and>
      (\<forall>u\<in>set new. \<exists>r\<in>set (described_rules (ex_elb [ex_key_rule, ex_path_rule, ex_default_rule])).
          \<not> IsDefault r \<and> call_arn u = RuleArn r))"
proof -
  let ?st = "ex_elb [ex_key_rule, ex_path_rule, ex_default_rule]"
  have d: "IsDefault ex_default_rule" by (simp add: ex_default_rule_def)
  have l: "rules_loop ''newKey99'' [ex_default_rule] (ex_elb [ex_default_rule]) = (Inr (), ex_elb [ex_default_rule])"
    using default_rules_never_updated [of ex_default_rule "''newKey99''" "[]" "ex_elb [ex_default_rule]"] d
    by simp
  have run: "set_api_key_in_alb [] (Some ''newKey99'') ?st =
     (Inr 0, ?st
        \<lparr>elb_calls :=
           [ModifyRule ''rule-1''
              [ex_path_condition,
               ex_key_condition\<lparr>HttpHeaderConfig :=
                 Some \<lparr>HttpHeaderName = Some ''X-AWS-API-KEY'', Values = Some [''newKey99'']\<rparr>\<rparr>]
              ''forward tg-1'',
            ModifyRule ''rule-2'' [ex_path_condition] ''forward tg-2'']\<rparr>)"
    by code_simp
  have "\<exists>new. elb_calls (snd (set_api_key_in_alb [] (Some ''newKey99'') ?st)) = elb_calls ?st @ new \<and>
      (\<forall>u\<in>set new. \<exists>r\<in>set (described_rules ?st). \<not> IsDefault r \<and> call_arn u = RuleArn r)"
    using default_rules_never_updated [where a = "[]" and secret_value = "Some ''newKey99''" and st = ?st
        and res = "fst (set_api_key_in_alb [] (Some ''newKey99'') ?st)"
        and st' = "snd (set_api_key_in_alb [] (Some ''newKey99'') ?st)"]
    by simp
  with d l run show ?thesis by blast
qed


text \<open>
  C4, as stated, is false: a rule that is not default and has no condition matching the
  sentinel still gets a rule update. With key \<open>newKey99\<close> and one rule whose only
  condition is a path pattern, the run submits one update, for that rule.
\<close>

theorem unmatched_rule_counterexample:
  "\<not> IsDefault ex_path_rule \<and>
   filter matches_sentinel (Conditions ex_path_rule) = [] \<and>
   elb_calls (snd (set_api_key_in_alb [] (Some ''newKey99'') (ex_elb [ex_path_rule]))) =
     [ModifyRule ''rule-2'' [ex_path_condition] ''forward tg-2'']"
  by code_simp

text \<open>
  C4, amended. For every rule that is not default and has no condition matching the
  sentinel (each of its header conditions carrying its header configuration), the rule
  synchronizer submits one rule update for it, whose condition list and action list
  are those of the rule, unchanged, and goes on with the next rule.
\<close>

theorem unmatched_rule_resubmitted:
  assumes "\<not> IsDefault r"
    and "\<forall>c\<in>set (Conditions r). \<not> matches_sentinel c"
    and "\<forall>c\<in>set (Conditions r). Field c = Some ''http-header'' \<longrightarrow> HttpHeaderConfig c \<noteq> None"
  shows "rules_loop key (r # rs) st =
         rules_loop key rs
           (st\<lparr>elb_calls := elb_calls st @ [ModifyRule (RuleArn r) (Conditions r) (Actions r)]\<rparr>)"
  using assms(1) update_conditions_unmatched [OF assms(2,3), of key]
  by (simp add: modify_rule_def)

theorem unmatched_rule_resubmitted_witness:
  "\<not> IsDefault ex_path_rule \<and>
   filter matches_sentinel (Conditions ex_path_rule) = [] \<and>
   filter (\<lambda>c. Field c = Some ''http-header'' \<and> HttpHeaderConfig c = None) (Conditions ex_path_rule) = [] \<and>
   rules_loop ''newKey99'' [ex_path_rule] (ex_elb [ex_path_rule]) =
     (Inr (), (ex_elb [ex_path_rule])\<lparr>elb_calls := [ModifyRule ''rule-2'' [ex_path_condition] ''forward tg-2'']\<rparr>)"
proof -
  have h1: "\<not> IsDefault ex_path_rule"
    by (simp add: ex_path_rule_def)
  have f2: "filter matches_sentinel (Conditions ex_path_rule) = []"
    by (simp add: ex_path_rule_def ex_path_condition_def matches_sentinel_def)
  have f3: "filter (\<lambda>c. Field c = Some ''http-header'' \<and> HttpHeaderConfig c = None) (Conditions ex_path_rule) = []"
    by (simp add: ex_path_rule_def ex_path_condition_def)
  have h2: "\<forall>c\<in>set (Conditions ex_path_rule). \<not> matches_sentinel c"
    using f2 by (simp add: filter_empty_conv)
  have h3: "\<forall>c\<in>set (Conditions ex_path_rule). Field c = Some ''http-header'' \<longrightarrow> HttpHeaderConfig c \<noteq> None"
    using f3 by (simp add: filter_empty_conv)
  have "rules_loop ''newKey99'' [ex_path_rule] (ex_elb [ex_path_rule]) =
     (Inr (), (ex_elb [ex_path_rule])\<lparr>elb_calls := [ModifyRule ''rule-2'' [ex_path_condition] ''forward tg-2'']\<rparr>)"
    using unmatched_rule_resubmitted [OF h1 h2 h3, of "''newKey99''" "[]" "ex_elb [ex_path_rule]"]
    by (simp add: ex_path_rule_def ex_elb_def)
  with h1 f2 f3 show ?thesis by blast
qed

text \<open>
  C5. When the pass over the conditions of a rule that is not default completes, the
  rule synchronizer submits one update for the rule, with the actions of the rule and
  with a condition list of the same length in which every condition matching the
  sentinel keeps its field, its header name and its other members and has the value
  list \<open>[key]\<close>, and every other condition is the condition of the rule. Whatever the
  outcome of a whole run, every update it submits is such an update of a described rule
  that is not default.
\<close>

theorem updates_touch_only_sentinel_values:
  "(\<not> IsDefault r \<longrightarrow> update_conditions key (Conditions r) = Inr cs' \<longrightarrow>
      rules_loop key (r # rs) st0 =
        rules_loop key rs (st0\<lparr>elb_calls := elb_calls st0 @ [ModifyRule (RuleArn r) cs' (Actions r)]\<rparr>) \<and>
      list_all2 (synced key) (Conditions r) cs') \<and>
   (set_api_key_in_alb a (Some key) st = (res, st') \<longrightarrow>
      (\<exists>new. elb_calls st' = elb_calls st @ new \<and>
         (\<forall>u\<in>set new. \<exists>r\<in>set (described_rules st). update_of key r u)))"
proof (intro conjI impI)
  assume "\<not> IsDefault r" and u: "update_conditions key (Conditions r) = Inr cs'"
  then show "rules_loop key (r # rs) st0 =
      rules_loop key rs (st0\<lparr>elb_calls := elb_calls st0 @ [ModifyRule (RuleArn r) cs' (Actions r)]\<rparr>)"
    by (simp add: modify_rule_def)
  from u show "list_all2 (synced key) (Conditions r) cs'"
    by (rule update_conditions_synced)
next
  assume "set_api_key_in_alb a (Some key) st = (res, st')"
  from set_api_key_in_alb_calls [OF this]
  show "\<exists>new. elb_calls st' = elb_calls st @ new \<and>
         (\<forall>u\<in>set new. \<exists>r\<in>set (described_rules st). update_of key r u)"
    by (simp add: only_updates_def)
qed

theorem updates_touch_only_sentinel_values_witness:
  "\<not> IsDefault ex_key_rule \<and>
   update_conditions ''newKey99'' (Conditions ex_key_rule) =
     Inr [ex_path_condition,
          ex_key_condition\<lparr>HttpHeaderConfig :=
            Some \<lparr>HttpHeaderName = Some ''X-AWS-API-KEY'', Values = Some [''newKey99'']\<rparr>\<rparr>] \<and>
   rules_loop ''newKey99'' [ex_key_rule] (ex_elb [ex_key_rule]) =
     (Inr (), (ex_elb [ex_key_rule])
        \<lparr>elb_calls :=
           [ModifyRule ''rule-1''
              [ex_path_condition,
               ex_key_condition\<lparr>HttpHeaderConfig :=
                 Some \<lparr>HttpHeaderName = Some ''X-AWS-API-KEY'', Values = Some [''newKey99'']\<rparr>\<rparr>]
              ''forward tg-1'']\<rparr>) \<and>
   list_all2 (synced ''newKey99'') (Conditions ex_key_rule)
     [ex_path_condition,
      ex_key_condition\<lparr>HttpHeaderConfig :=
        Some \<lparr>HttpHeaderName = Some ''X-AWS-API-KEY'', Values = Some [''newKey99'']\<rparr>\<rparr>] \<and>
   (\<exists>new. elb_calls (snd (set_api_key_in_alb [] (Some ''newKey99'') (ex_elb [ex_key_rule, ex_path_rule, ex_default_rule])))
             = elb_calls (ex_elb [ex_key_rule, ex_path_rule, ex_default_rule]) @ new \<and>
      (\<forall>u\<in>set new. \<exists>r\<in>set (described_rules (ex_elb [ex_key_rule, ex_path_rule, ex_default_rule])).
          update_of ''newKey99'' r u))"
proof -
  let ?cs = "[ex_path_condition,
      ex_key_condition\<lparr>HttpHeaderConfig :=
        Some \<lparr>HttpHeaderName = Some ''X-AWS-API-KEY'', Values = Some [''newKey99'']\<rparr>\<rparr>]"
  let ?st = "ex_elb [ex_key_rule, ex_path_rule, ex_default_rule]"
  have h1: "\<not> IsDefault ex_key_rule"
    by (simp add: ex_key_rule_def)
  have h2: "update_conditions ''newKey99'' (Conditions ex_key_rule) = Inr ?cs"
    by code_simp
  note t = updates_touch_only_sentinel_values [where r = ex_key_rule and key = "''newKey99''"
      and cs' = ?cs and rs = "[]" and ?st0.0 = "ex_elb [ex_key_rule]" and a = "[]" and st = ?st
      and res = "fst (set_api_key_in_alb [] (Some ''newKey99'') ?st)"
      and st' = "snd (set_api_key_in_alb [] (Some ''newKey99'') ?st)"]
  have c1: "rules_loop ''newKey99'' [ex_key_rule] (ex_elb [ex_key_rule]) =
     (Inr (), (ex_elb [ex_key_rule])\<lparr>elb_calls := [ModifyRule ''rule-1'' ?cs ''forward tg-1'']\<rparr>)"
    using t h1 h2 by (simp add: ex_key_rule_def ex_elb_def)
  have c2: "list_all2 (synced ''newKey99'') (Conditions ex_key_rule) ?cs"
    using t h1 h2 by blast
  have c3: "\<exists>new. elb_calls (snd (set_api_key_in_alb [] (Some ''newKey99'') ?st)) = elb_calls ?st @ new \<and>
      (\<forall>u\<in>set new. \<exists>r\<in>set (described_rules ?st). update_of ''newKey99'' r u)"
    using t by simp
  from h1 h2 c1 c2 c3 show ?thesis by blast
qed


subsection \<open>The entry point\<close>

lemma lambda_handler_already_current:
  assumes "describe_secret (SecretId ev) (sm w) = Inr md"
    and "RotationEnabled md = Some True"
    and "map_of (VersionIdsToStages md) (event_token ev) = Some stages"
    and "''AWSCURRENT'' \<in> set stages"
  shows "lambda_handler a ev w = (Inr None, w)"
  using assms by (simp add: lambda_handler_def event_token_def Let_def)

lemma lambda_handler_dispatches:
  assumes "describe_secret (SecretId ev) (sm w) = Inr md"
    and "RotationEnabled md = Some True"
    and "map_of (VersionIdsToStages md) (event_token ev) = Some stages"
    and "''AWSCURRENT'' \<notin> set stages"
    and "''AWSPENDING'' \<in> set stages"
  shows "lambda_handler a ev w = dispatch a (Step ev) (SecretId ev) (event_token ev) w"
  using assms by (simp add: lambda_handler_def event_token_def Let_def)

lemma finish_secret_already_current:
  assumes "get_secret sid ''AWSPENDING'' (Some tok) st = Inr v"
    and "describe_secret sid st = Inr md"
    and "first_current (VersionIdsToStages md) = Some tok"
  shows "finish_secret sid tok st = (Inr None, st)"
  using assms by (simp add: finish_secret_def Let_def)

text \<open>
  C3 fails on the code. The event \<open>finishSecret\<close> for the version \<open>v1\<close>, which holds the
  label \<open>AWSCURRENT\<close> of a secret with rotation enabled, completes without raising, and
  the entry point returns \<^verbatim>\<open>None\<close>, not the response with status 200 that the path of an
  unrecognized step returns on the same secret for the pending version.
\<close>

theorem already_current_returns_none:
  "fst (lambda_handler [] (ex_event ''finishSecret'' ''v1'') (ex_world (ex_store ex_current_text)))
     = Inr None \<and>
   fst (lambda_handler [] (ex_event ''noSuchStep'' ''v2'') (ex_world (ex_store ex_current_text)))
     = Inr (Some \<lparr>statusCode = 200, body = ''done.''\<rparr>)"
  by code_simp

text \<open>
  C7. On a secret with rotation enabled, an event whose token already holds the label
  \<open>AWSCURRENT\<close> leaves the secret store, the control plane and the random source as they
  were, so no stage move is issued, and the entry point returns without raising. The
  step function \<open>finish_secret\<close> itself, once it has read the pending value, returns
  without raising and without a stage move when the version that holds \<open>AWSCURRENT\<close> is
  the token.
\<close>

theorem finish_when_already_current:
  assumes "describe_secret (SecretId ev) (sm w) = Inr md"
    and "RotationEnabled md = Some True"
    and "map_of (VersionIdsToStages md) (event_token ev) = Some stages"
    and "''AWSCURRENT'' \<in> set stages"
  shows "lambda_handler a ev w = (Inr None, w) \<and>
         sm_calls (sm (snd (lambda_handler a ev w))) = sm_calls (sm w) \<and>
         (get_secret (SecretId ev) ''AWSPENDING'' (Some (event_token ev)) (sm w) = Inr v \<longrightarrow>
          first_current (VersionIdsToStages md) = Some (event_token ev) \<longrightarrow>
          finish_secret (SecretId ev) (event_token ev) (sm w) = (Inr None, sm w))"
  using lambda_handler_already_current [OF assms] finish_secret_already_current assms(1)
  by simp

theorem finish_when_already_current_witness:
  "describe_secret ''MySecret'' ex_store_finished =
     Inr \<lparr>RotationEnabled = Some True,
          VersionIdsToStages = [(''v1'', [''AWSPREVIOUS'']), (''v2'', [''AWSCURRENT'', ''AWSPENDING''])],
          SecretStrings = [(''v1'', ex_current_text), (''v2'', payload_text ''b'' ''c'' ''DKRYfmt07ELSZgnu'')]\<rparr> \<and>
   get_secret ''MySecret'' ''AWSPENDING'' (Some ''v2'') ex_store_finished =
     Inr (payload_text ''b'' ''c'' ''DKRYfmt07ELSZgnu'') \<and>
   first_current [(''v1'', [''AWSPREVIOUS'']), (''v2'', [''AWSCURRENT'', ''AWSPENDING''])] = Some ''v2'' \<and>
   lambda_handler [] (ex_event ''finishSecret'' ''v2'') (ex_world ex_store_finished) =
     (Inr None, ex_world ex_store_finished) \<and>
   sm_calls (sm (snd (lambda_handler [] (ex_event ''finishSecret'' ''v2'') (ex_world ex_store_finished)))) = [] \<and>
   finish_secret ''MySecret'' ''v2'' ex_store_finished = (Inr None, ex_store_finished)"
proof -
  let ?md = "\<lparr>RotationEnabled = Some True,
          VersionIdsToStages = [(''v1'', [''AWSPREVIOUS'']), (''v2'', [''AWSCURRENT'', ''AWSPENDING''])],
          SecretStrings = [(''v1'', ex_current_text), (''v2'', payload_text ''b'' ''c'' ''DKRYfmt07ELSZgnu'')]\<rparr>"
  let ?ev = "ex_event ''finishSecret'' ''v2''"
  let ?w = "ex_world ex_store_finished"
  have ev: "SecretId ?ev = ''MySecret''" "event_token ?ev = ''v2''"
    by (simp_all add: ex_event_def event_token_def)
  have w: "sm ?w = ex_store_finished"
    by (simp add: ex_world_def)
  have d: "describe_secret ''MySecret'' ex_store_finished = Inr ?md"
    by (simp add: describe_secret_def ex_store_finished_def)
  have p: "get_secret ''MySecret'' ''AWSPENDING'' (Some ''v2'') ex_store_finished =
     Inr (payload_text ''b'' ''c'' ''DKRYfmt07ELSZgnu'')"
    by (simp add: get_secret_def get_secret_value_def ex_store_finished_def)
  have f: "first_current [(''v1'', [''AWSPREVIOUS'']), (''v2'', [''AWSCURRENT'', ''AWSPENDING''])] = Some ''v2''"
    by (simp add: first_current_def)
  have h1: "describe_secret (SecretId ?ev) (sm ?w) = Inr ?md" using d ev w by simp
  have h2: "RotationEnabled ?md = Some True" by simp
  have h3: "map_of (VersionIdsToStages ?md) (event_token ?ev) = Some [''AWSCURRENT'', ''AWSPENDING'']"
    using ev by simp
  have h4: "''AWSCURRENT'' \<in> set [''AWSCURRENT'', ''AWSPENDING'']" by simp
  note t = finish_when_already_current [OF h1 h2 h3 h4, of "[]" "payload_text ''b'' ''c'' ''DKRYfmt07ELSZgnu''"]
  have c1: "lambda_handler [] ?ev ?w = (Inr None, ?w)" using t by blast
  have c2: "sm_calls (sm (snd (lambda_handler [] ?ev ?w))) = []"
    using t w by (simp add: ex_store_finished_def)
  have c3: "finish_secret ''MySecret'' ''v2'' ex_store_finished = (Inr None, ex_store_finished)"
    using t p f ev w by simp
  from d p f c1 c2 c3 show ?thesis by blast
qed

text \<open>
  C8, as stated, is false: with rotation switched off and a token that is absent from the
  version map, the entry point raises the error of the rotation flag, which is not the
  error of the unknown version.
\<close>

theorem unknown_version_counterexample:
  "map_of [(''v1'', [''AWSCURRENT'']), (''v2'', [''AWSPENDING''])] ''v9'' = None \<and>
   describe_secret ''MySecret'' ex_store_disabled =
     Inr \<lparr>RotationEnabled = Some False,
          VersionIdsToStages = [(''v1'', [''AWSCURRENT'']), (''v2'', [''AWSPENDING''])],
          SecretStrings = [(''v1'', ex_current_text)]\<rparr> \<and>
   fst (lambda_handler [] (ex_event ''createSecret'' ''v9'') (ex_world ex_store_disabled)) =
     Inl (ValueError ''Secret MySecret is not enabled for rotation'') \<and>
   no_stage_msg ''v9'' ''MySecret'' = ''Secret version v9 has no stage for rotation of secret MySecret.'' \<and>
   fst (lambda_handler [] (ex_event ''createSecret'' ''v9'') (ex_world ex_store_disabled)) \<noteq>
     Inl (ValueError (no_stage_msg ''v9'' ''MySecret''))"
  by code_simp

text \<open>
  C8, amended. For every rotation event on a secret whose rotation flag is true and
  whose version map lacks the token of the event, the entry point raises the
  \<^verbatim>\<open>ValueError\<close> of the unknown version before it dispatches, and the secret store, the
  control plane and the random source are as they were.
\<close>

theorem unknown_version_rejected:
  assumes "describe_secret (SecretId ev) (sm w) = Inr md"
    and "RotationEnabled md = Some True"
    and "map_of (VersionIdsToStages md) (event_token ev) = None"
  shows "lambda_handler a ev w =
         (Inl (ValueError (no_stage_msg (event_token ev) (SecretId ev))), w)"
  using assms by (simp add: lambda_handler_def event_token_def Let_def)

theorem unknown_version_rejected_witness:
  "describe_secret ''MySecret'' (ex_store ex_current_text) = Inr (ex_secret ex_current_text) \<and>
   RotationEnabled (ex_secret ex_current_text) = Some True \<and>
   map_of (VersionIdsToStages (ex_secret ex_current_text)) ''v9'' = None \<and>
   lambda_handler [] (ex_event ''createSecret'' ''v9'') (ex_world (ex_store ex_current_text)) =
     (Inl (ValueError ''Secret version v9 has no stage for rotation of secret MySecret.''),
      ex_world (ex_store ex_current_text))"
proof -
  let ?ev = "ex_event ''createSecret'' ''v9''"
  let ?w = "ex_world (ex_store ex_current_text)"
  have ev: "SecretId ?ev = ''MySecret''" "event_token ?ev = ''v9''"
    by (simp_all add: ex_event_def event_token_def)
  have w: "sm ?w = ex_store ex_current_text"
    by (simp add: ex_world_def)
  have d: "describe_secret ''MySecret'' (ex_store ex_current_text) = Inr (ex_secret ex_current_text)"
    by (simp add: describe_secret_def ex_store_def)
  have e: "RotationEnabled (ex_secret ex_current_text) = Some True"
    by (simp add: ex_secret_def)
  have n: "map_of (VersionIdsToStages (ex_secret ex_current_text)) ''v9'' = None"
    by (simp add: ex_secret_def)
  have h1: "describe_secret (SecretId ?ev) (sm ?w) = Inr (ex_secret ex_current_text)"
    using d ev w by simp
  have h3: "map_of (VersionIdsToStages (ex_secret ex_current_text)) (event_token ?ev) = None"
    using n ev by simp
  have "lambda_handler [] ?ev ?w =
     (Inl (ValueError ''Secret version v9 has no stage for rotation of secret MySecret.''), ?w)"
    using unknown_version_rejected [OF h1 e h3, of "[]"] ev by (simp add: no_stage_msg_def)
  with d e n show ?thesis by blast
qed

text \<open>
  C9. For every rotation event that passes the staging validation (the secret is
  described, its rotation flag is true and the token carries \<open>AWSCURRENT\<close> or
  \<open>AWSPENDING\<close>) and whose step, in lower case, is none of the four step names, the entry
  point returns without raising and leaves the secret store, the control plane and the
  random source as they were: no step function has run.
\<close>

theorem unrecognized_step_is_noop:
  assumes "describe_secret (SecretId ev) (sm w) = Inr md"
    and "RotationEnabled md = Some True"
    and "map_of (VersionIdsToStages md) (event_token ev) = Some stages"
    and "''AWSCURRENT'' \<in> set stages \<or> ''AWSPENDING'' \<in> set stages"
    and "lower (Step ev) \<noteq> ''createsecret''"
    and "lower (Step ev) \<noteq> ''setsecret''"
    and "lower (Step ev) \<noteq> ''testsecret''"
    and "lower (Step ev) \<noteq> ''finishsecret''"
  shows "lambda_handler a ev w =
         (Inr (if ''AWSCURRENT'' \<in> set stages then None else Some done_response), w)"
proof (cases "''AWSCURRENT'' \<in> set stages")
  case True
  with lambda_handler_already_current [OF assms(1,2,3)] show ?thesis by simp
next
  case False
  with assms(4) have "''AWSPENDING'' \<in> set stages" by simp
  from lambda_handler_dispatches [OF assms(1,2,3) False this, of a] assms(5-8) False
  show ?thesis by (simp add: dispatch_def)
qed

theorem unrecognized_step_is_noop_witness:
  "describe_secret ''MySecret'' (ex_store ex_current_text) = Inr (ex_secret ex_current_text) \<and>
   RotationEnabled (ex_secret ex_current_text) = Some True \<and>
   map_of (VersionIdsToStages (ex_secret ex_current_text)) ''v2'' = Some [''AWSPENDING''] \<and>
   lower ''rollbackSecret'' = ''rollbacksecret'' \<and>
   lambda_handler [] (ex_event ''rollbackSecret'' ''v2'') (ex_world (ex_store ex_current_text)) =
     (Inr (Some \<lparr>statusCode = 200, body = ''done.''\<rparr>), ex_world (ex_store ex_current_text))"
proof -
  let ?ev = "ex_event ''rollbackSecret'' ''v2''"
  let ?w = "ex_world (ex_store ex_current_text)"
  have ev: "SecretId ?ev = ''MySecret''" "event_token ?ev = ''v2''" "Step ?ev = ''rollbackSecret''"
    by (simp_all add: ex_event_def event_token_def)
  have w: "sm ?w = ex_store ex_current_text"
    by (simp add: ex_world_def)
  have d: "describe_secret ''MySecret'' (ex_store ex_current_text) = Inr (ex_secret ex_current_text)"
    by (simp add: describe_secret_def ex_store_def)
  have e: "RotationEnabled (ex_secret ex_current_text) = Some True"
    by (simp add: ex_secret_def)
  have m: "map_of (VersionIdsToStages (ex_secret ex_current_text)) ''v2'' = Some [''AWSPENDING'']"
    by (simp add: ex_secret_def)
  have l: "lower ''rollbackSecret'' = ''rollbacksecret''"
    by code_simp
  have h1: "describe_secret (SecretId ?ev) (sm ?w) = Inr (ex_secret ex_current_text)"
    using d ev w by simp
  have h3: "map_of (VersionIdsToStages (ex_secret ex_current_text)) (event_token ?ev) = Some [''AWSPENDING'']"
    using m ev by simp
  have h4: "''AWSCURRENT'' \<in> set [''AWSPENDING''] \<or> ''AWSPENDING'' \<in> set [''AWSPENDING'']"
    by simp
  have s: "lower (Step ?ev) \<noteq> ''createsecret''" "lower (Step ?ev) \<noteq> ''setsecret''"
    "lower (Step ?ev) \<noteq> ''testsecret''" "lower (Step ?ev) \<noteq> ''finishsecret''"
    using l ev by simp_all
  have "lambda_handler [] ?ev ?w = (Inr (Some \<lparr>statusCode = 200, body = ''done.''\<rparr>), ?w)"
    using unrecognized_step_is_noop [OF h1 e h3 h4 s, of "[]"] by (simp add: done_response_def)
  with d e m l show ?thesis by blast
qed


subsection \<open>Serializing and parsing a payload\<close>

lemma encode_char_unescaped: "unescaped c \<Longrightarrow> encode_char c = [c]"
  by (auto simp: unescaped_def encode_char_def Let_def)

lemma encode_unescaped: "list_all unescaped v \<Longrightarrow> concat (map encode_char v) = v"
  by (induction v) (simp_all add: encode_char_unescaped)

lemma scanstring_unescaped:
  "list_all unescaped v \<Longrightarrow> scanstring (v @ dquote # rest) = Some (v, rest)"
  by (induction v) (auto simp: unescaped_def)

lemma unescaped_no_backslash: "list_all unescaped v \<Longrightarrow> backslash \<notin> set v"
  by (induction v) (auto simp: unescaped_def)

lemma replace_char_absent: "a \<notin> set xs \<Longrightarrow> replace_char a b xs = xs"
  by (induction xs) (auto simp: replace_char_def)

lemma json_dumps_payload:
  "list_all unescaped b \<Longrightarrow> list_all unescaped c \<Longrightarrow> list_all unescaped k \<Longrightarrow>
   json_dumps [(''key1'', b), (''key2'', c), (''key3'', k)] = payload_text b c k"
  by (simp add: json_dumps_def encode_item_def encode_string_def encode_unescaped payload_text_def
      encode_char_def dquote_def backslash_def)

lemma skip_ws_simps:
  "skip_ws [] = []"
  "skip_ws (x # xs) = (if is_ws x then skip_ws xs else x # xs)"
  by (simp_all add: skip_ws_def)

lemma json_loads_payload:
  assumes "list_all unescaped b" "list_all unescaped c" "list_all unescaped k"
  shows "json_loads (payload_text b c k) = Inr [(''key1'', b), (''key2'', c), (''key3'', k)]"
proof -
  let ?m3 = "''key3'' @ [dquote, CHR '':'', CHR '' '', dquote] @ k @ [dquote, CHR ''}'']"
  let ?m2 = "''key2'' @ [dquote, CHR '':'', CHR '' '', dquote] @ c @
     [dquote, CHR '','', CHR '' '', dquote] @ ?m3"
  let ?m1 = "''key1'' @ [dquote, CHR '':'', CHR '' '', dquote] @ b @
     [dquote, CHR '','', CHR '' '', dquote] @ ?m2"
  have p3: "parse_pairs ?m3 = Some ([(''key3'', k)], [])"
    using scanstring_unescaped [OF assms(3), of "[CHR ''}'']"]
    by (subst parse_pairs.simps) (simp add: skip_ws_simps is_ws_def dquote_def backslash_def)
  have p2: "parse_pairs ?m2 = Some ([(''key2'', c), (''key3'', k)], [])"
    using scanstring_unescaped [OF assms(2), of "[CHR '','', CHR '' '', dquote] @ ?m3"] p3
    by (subst parse_pairs.simps) (simp add: skip_ws_simps is_ws_def dquote_def backslash_def)
  have p1: "parse_pairs ?m1 = Some ([(''key1'', b), (''key2'', c), (''key3'', k)], [])"
    using scanstring_unescaped [OF assms(1), of "[CHR '','', CHR '' '', dquote] @ ?m2"] p2
    by (subst parse_pairs.simps) (simp add: skip_ws_simps is_ws_def dquote_def backslash_def)
  show ?thesis
    using p1
    by (simp add: json_loads_def payload_text_def skip_ws_simps is_ws_def dquote_def
        loads_end_def dict_of_pairs_def)
qed

lemma secret_string_of_payload:
  assumes "list_all unescaped b" "list_all unescaped c" "list_all unescaped k"
  shows "secret_string_of [(''key1'', b), (''key2'', c), (''key3'', k)] = payload_text b c k"
proof -
  have "backslash \<notin> set (payload_text b c k)"
    using assms [THEN unescaped_no_backslash]
    by (simp add: payload_text_def dquote_def backslash_def)
  then show ?thesis
    by (simp add: secret_string_of_def json_dumps_payload [OF assms] replace_char_absent)
qed

lemma chars_unescaped: "x \<in> set chars \<Longrightarrow> unescaped x \<and> x \<noteq> squote"
  by (auto simp: chars_def ascii_uppercase_def ascii_lowercase_def digits_def unescaped_def
      dquote_def backslash_def squote_def)

lemma alnum_unescaped: "set v \<subseteq> set chars \<Longrightarrow> list_all unescaped v"
  using chars_unescaped by (auto simp: list_all_iff)

lemma alnum_no_squote: "set v \<subseteq> set chars \<Longrightarrow> squote \<notin> set v"
  using chars_unescaped by auto

lemma set_parse_payload:
  assumes "set b \<subseteq> set chars" "set c \<subseteq> set chars" "set k \<subseteq> set chars"
  shows "json_loads (replace_char backslash [] (replace_char squote [dquote]
           (secret_string_of [(''key1'', b), (''key2'', c), (''key3'', k)])))
         = Inr [(''key1'', b), (''key2'', c), (''key3'', k)]"
proof -
  note u = assms [THEN alnum_unescaped]
  have s: "secret_string_of [(''key1'', b), (''key2'', c), (''key3'', k)] = payload_text b c k"
    using u by (rule secret_string_of_payload)
  have q: "squote \<notin> set (payload_text b c k)"
    using assms [THEN alnum_no_squote] by (simp add: payload_text_def dquote_def squote_def)
  have bs: "backslash \<notin> set (payload_text b c k)"
    using u [THEN unescaped_no_backslash] by (simp add: payload_text_def dquote_def backslash_def)
  show ?thesis
    using json_loads_payload [OF u] by (simp add: s replace_char_absent [OF q] replace_char_absent [OF bs])
qed

subsection \<open>The create step\<close>

lemma key_generator_props:
  "key_generator n g = (k, g') \<Longrightarrow> length k = n \<and> set k \<subseteq> set chars"
proof (induction n arbitrary: g k g')
  case 0
  then show ?case by simp
next
  case (Suc n)
  obtain c g1 where c: "random_choice chars g = (c, g1)" by (cases "random_choice chars g")
  obtain cs g2 where cs: "key_generator n g1 = (cs, g2)" by (cases "key_generator n g1")
  have len: "length chars = 62"
    by (simp add: chars_def ascii_uppercase_def ascii_lowercase_def digits_def)
  have "chars ! (draws g (cursor g) mod length chars) \<in> set chars"
    by (rule nth_mem) (simp add: len)
  then have cin: "c \<in> set chars" using c by (simp add: random_choice_def)
  from Suc.IH [OF cs] Suc.prems c cs cin show ?case by auto
qed

lemma find_map_fst:
  assumes "\<And>x. P (f x) = P x" "\<And>x. fst (f x) = fst x"
  shows "map_option fst (List.find P (map f xs)) = map_option fst (List.find P xs)"
  using assms by (induction xs) auto

lemma find_update_fst:
  assumes "\<And>x. P (f x) = P x" "\<And>x. fst (f x) = fst x"
    and "\<And>b. map_of vs tok = Some b \<Longrightarrow> P (tok, xs) = P (tok, b)"
    and "map_of vs tok = None \<Longrightarrow> \<not> P (tok, xs)"
  shows "map_option fst (List.find P (AList.update tok xs (map f vs))) = map_option fst (List.find P vs)"
  using assms(3,4)
proof (induction vs)
  case Nil
  then show ?case by simp
next
  case (Cons ab vs)
  obtain a b where ab: "ab = (a, b)" by (cases ab)
  obtain a' b' where fab: "f (a, b) = (a', b')" by (cases "f (a, b)")
  have a': "a' = a" using assms(2) [of "(a, b)"] fab by simp
  have pf: "P (a, b') = P (a, b)" using assms(1) [of "(a, b)"] fab a' by simp
  show ?case
  proof (cases "a = tok")
    case True
    then show ?thesis
      using Cons.prems ab fab a' find_map_fst [of P f vs, OF assms(1,2)] by auto
  next
    case False
    then show ?thesis
      using Cons ab fab a' pf by auto
  qed
qed

lemma find_attach_stage_other:
  assumes "stage' \<noteq> stage"
  shows "map_option fst (List.find (\<lambda>vs. stage' \<in> set (snd vs)) (attach_stage stage tok vs))
       = map_option fst (List.find (\<lambda>vs. stage' \<in> set (snd vs)) vs)"
proof -
  let ?f = "\<lambda>(v, stages). (v, removeAll stage stages)"
  have m: "map_of (map ?f vs) tok = map_option (removeAll stage) (map_of vs tok)"
    by (induction vs) auto
  show ?thesis
    unfolding attach_stage_def Let_def
    by (rule find_update_fst) (use assms m in \<open>auto split: option.splits\<close>)
qed

lemma find_update_self:
  assumes "\<forall>x\<in>set ys. \<not> P x" and "P (tok, xs)"
  shows "List.find P (AList.update tok xs ys) = Some (tok, xs)"
  using assms by (induction ys) auto

lemma find_attach_stage_self:
  "map_option fst (List.find (\<lambda>vs. stage \<in> set (snd vs)) (attach_stage stage tok vs)) = Some tok"
  unfolding attach_stage_def Let_def
  by (subst find_update_self) auto

lemma map_of_attach_stage_self:
  "\<exists>stages. map_of (attach_stage stage tok vs) tok = Some stages \<and> stage \<in> set stages"
  by (simp add: attach_stage_def Let_def update_conv')

lemma put_fresh:
  assumes sec: "map_of (secrets st) sid = Some sec"
    and none: "map_of (SecretStrings sec) tok = None"
  shows "put_secret_value sid tok s [''AWSPENDING''] st =
    (Inr (),
     st\<lparr>sm_calls := sm_calls st @ [PutSecretValue sid tok s [''AWSPENDING'']],
        secrets := AList.update sid
          (sec\<lparr>VersionIdsToStages := attach_stage ''AWSPENDING'' tok (VersionIdsToStages sec),
               SecretStrings := AList.update tok s (SecretStrings sec)\<rparr>)
          (secrets st)\<rparr>)"
  using assms by (simp add: put_secret_value_def Let_def)

lemma pending_not_found:
  assumes "get_secret_value sid (Some tok) stage st = Inl ResourceNotFoundException"
    and "map_of (secrets st) sid = Some sec"
  shows "map_of (SecretStrings sec) tok = None"
  using assms by (auto simp: get_secret_value_def split: option.splits if_splits)

lemma get_secret_exists:
  assumes "get_secret sid stage t st = Inr v"
  obtains sec vid stages where "map_of (secrets st) sid = Some sec"
    and "List.find (\<lambda>vs. stage \<in> set (snd vs)) (VersionIdsToStages sec) = Some (vid, stages)"
    and "map_of (SecretStrings sec) vid = Some v"
  using assms by (auto simp: get_secret_def get_secret_value_def split: option.splits)

lemma create_secret_put:
  assumes cur: "get_secret sid ''AWSCURRENT'' (Some tok) st = Inr cur"
    and dec: "json_loads cur = Inr d"
    and k2: "map_of d ''key2'' = Some b"
    and k3: "map_of d ''key3'' = Some c"
    and pen: "get_secret_value sid (Some tok) ''AWSPENDING'' st = Inl ResourceNotFoundException"
    and gen: "key_generator 16 g = (k, g')"
  shows "\<exists>st'. create_secret sid tok st g = (Inr 0, st', g') \<and>
    sm_calls st' = sm_calls st @
      [PutSecretValue sid tok (secret_string_of [(''key1'', b), (''key2'', c), (''key3'', k)]) [''AWSPENDING'']] \<and>
    get_secret_value sid (Some tok) ''AWSPENDING'' st' =
      Inr (secret_string_of [(''key1'', b), (''key2'', c), (''key3'', k)]) \<and>
    get_secret sid ''AWSPENDING'' t st' =
      Inr (secret_string_of [(''key1'', b), (''key2'', c), (''key3'', k)]) \<and>
    get_secret sid ''AWSCURRENT'' (Some tok) st' = Inr cur"
proof -
  let ?s = "secret_string_of [(''key1'', b), (''key2'', c), (''key3'', k)]"
  from cur obtain sec vid stages where
    sec: "map_of (secrets st) sid = Some sec" and
    fnd: "List.find (\<lambda>vs. ''AWSCURRENT'' \<in> set (snd vs)) (VersionIdsToStages sec) = Some (vid, stages)" and
    val: "map_of (SecretStrings sec) vid = Some cur"
    by (rule get_secret_exists)
  have none: "map_of (SecretStrings sec) tok = None"
    using pending_not_found [OF pen sec] .
  let ?vs' = "attach_stage ''AWSPENDING'' tok (VersionIdsToStages sec)"
  let ?sec' = "sec\<lparr>VersionIdsToStages := ?vs', SecretStrings := AList.update tok ?s (SecretStrings sec)\<rparr>"
  let ?st' = "st\<lparr>sm_calls := sm_calls st @ [PutSecretValue sid tok ?s [''AWSPENDING'']],
        secrets := AList.update sid ?sec' (secrets st)\<rparr>"
  have put: "put_secret_value sid tok ?s [''AWSPENDING''] st = (Inr (), ?st')"
    using put_fresh [OF sec none] .
  have run: "create_secret sid tok st g = (Inr 0, ?st', g')"
    using cur dec k2 k3 pen gen put by (simp add: create_secret_def getitem_def)
  have sec': "map_of (secrets ?st') sid = Some ?sec'"
    by (simp add: update_conv')
  obtain stages' where st': "map_of ?vs' tok = Some stages'" and inst: "''AWSPENDING'' \<in> set stages'"
    using map_of_attach_stage_self by blast
  have pen': "get_secret_value sid (Some tok) ''AWSPENDING'' ?st' = Inr ?s"
    using sec' st' inst by (simp add: get_secret_value_def update_conv')
  obtain stages3 where fndp: "List.find (\<lambda>vs. ''AWSPENDING'' \<in> set (snd vs)) ?vs' = Some (tok, stages3)"
    using find_attach_stage_self [of "''AWSPENDING''" tok "VersionIdsToStages sec"] by auto
  have penst: "get_secret sid ''AWSPENDING'' t ?st' = Inr ?s"
    using sec' fndp by (simp add: get_secret_def get_secret_value_def update_conv')
  have neq: "vid \<noteq> tok" using none val by auto
  have "map_option fst (List.find (\<lambda>vs. ''AWSCURRENT'' \<in> set (snd vs)) ?vs') = Some vid"
    using find_attach_stage_other [of "''AWSCURRENT''" "''AWSPENDING''" tok "VersionIdsToStages sec"] fnd
    by simp
  then obtain stages2 where fnd': "List.find (\<lambda>vs. ''AWSCURRENT'' \<in> set (snd vs)) ?vs' = Some (vid, stages2)"
    by auto
  have cur': "get_secret sid ''AWSCURRENT'' (Some tok) ?st' = Inr cur"
    using sec' fnd' val neq by (simp add: get_secret_def get_secret_value_def update_conv')
  show ?thesis using run pen' penst cur' by (intro exI [of _ ?st']) simp
qed

lemma create_secret_pending_exists:
  assumes "get_secret sid ''AWSCURRENT'' (Some tok) st = Inr cur"
    and "json_loads cur = Inr d"
    and "get_secret_value sid (Some tok) ''AWSPENDING'' st = Inr p"
  shows "create_secret sid tok st g = (Inr 0, st, g)"
  using assms by (simp add: create_secret_def)

lemma create_secret_success_cases:
  assumes "create_secret sid tok st g = (Inr 0, st', g')"
  obtains (exists) cur d p where "get_secret sid ''AWSCURRENT'' (Some tok) st = Inr cur"
      "json_loads cur = Inr d" "get_secret_value sid (Some tok) ''AWSPENDING'' st = Inr p"
      "st' = st" "g' = g"
  | (put) cur d b c k where "get_secret sid ''AWSCURRENT'' (Some tok) st = Inr cur"
      "json_loads cur = Inr d" "map_of d ''key2'' = Some b" "map_of d ''key3'' = Some c"
      "get_secret_value sid (Some tok) ''AWSPENDING'' st = Inl ResourceNotFoundException"
      "key_generator 16 g = (k, g')"
  using assms
  by (auto simp: create_secret_def getitem_def Let_def
      split: sum.splits if_splits option.splits prod.splits)

lemma set_secret_pushes:
  assumes "get_secret sid ''AWSPENDING'' (Some tok) st = Inr s"
    and "json_loads (replace_char backslash [] (replace_char squote [dquote] s)) = Inr d"
    and "map_of d ''key3'' = Some k"
  shows "set_secret a sid tok st est =
    (case set_api_key_in_alb a (Some k) est of
       (Inl e, est') \<Rightarrow> (Inl e, est')
     | (Inr x, est') \<Rightarrow> (Inr 0, est'))"
  using assms by (simp add: set_secret_def getitem_def)


text \<open>
  C1, as stated, is false. The current payload has the second value \<open>b\<close>, backslash,
  \<open>c\<close>; no pending value exists for the token \<open>v2\<close>. The create step succeeds and stores
  a payload whose first value is \<open>bc\<close>: the backslash that the serialization escapes is
  removed together with its escape.
\<close>

theorem create_secret_chain_counterexample:
  "get_secret ''MySecret'' ''AWSCURRENT'' (Some ''v2'') (ex_store ex_escaped_text) = Inr ex_escaped_text \<and>
   json_loads ex_escaped_text =
     Inr [(''key1'', ''a''), (''key2'', [CHR ''b'', backslash, CHR ''c'']), (''key3'', ''c'')] \<and>
   get_secret_value ''MySecret'' (Some ''v2'') ''AWSPENDING'' (ex_store ex_escaped_text) =
     Inl ResourceNotFoundException \<and>
   fst (create_secret ''MySecret'' ''v2'' (ex_store ex_escaped_text) ex_rng) = Inr 0 \<and>
   sm_calls (fst (snd (create_secret ''MySecret'' ''v2'' (ex_store ex_escaped_text) ex_rng))) =
     [PutSecretValue ''MySecret'' ''v2'' (payload_text ''bc'' ''c'' ''DKRYfmt07ELSZgnu'') [''AWSPENDING'']] \<and>
   json_loads (payload_text ''bc'' ''c'' ''DKRYfmt07ELSZgnu'') =
     Inr [(''key1'', ''bc''), (''key2'', ''c''), (''key3'', ''DKRYfmt07ELSZgnu'')] \<and>
   ''bc'' \<noteq> [CHR ''b'', backslash, CHR ''c'']"
  by code_simp

text \<open>
  C1, amended. For every run of the create step where the current payload decodes to a
  dictionary with \<open>key2 = b\<close> and \<open>key3 = c\<close>, where \<open>b\<close> and \<open>c\<close> hold only characters
  that the serialization writes as themselves (printable ASCII other than the double
  quote and the backslash), and where no pending value exists for the token, the create
  step succeeds, generates a key \<open>k\<close> of 16 characters of the key alphabet, issues one
  put call under the token with the label \<open>AWSPENDING\<close>, and the string it stores, which
  is then the pending value of the token, decodes to \<open>key1 = b\<close>, \<open>key2 = c\<close>, \<open>key3 = k\<close>.
\<close>

theorem create_secret_chains:
  assumes "get_secret sid ''AWSCURRENT'' (Some tok) st = Inr cur"
    and "json_loads cur = Inr d"
    and "map_of d ''key2'' = Some b"
    and "map_of d ''key3'' = Some c"
    and "get_secret_value sid (Some tok) ''AWSPENDING'' st = Inl ResourceNotFoundException"
    and "list_all unescaped b"
    and "list_all unescaped c"
  shows "\<exists>k g' st'.
    key_generator 16 g = (k, g') \<and> length k = 16 \<and> set k \<subseteq> set chars \<and>
    create_secret sid tok st g = (Inr 0, st', g') \<and>
    sm_calls st' = sm_calls st @
      [PutSecretValue sid tok (secret_string_of [(''key1'', b), (''key2'', c), (''key3'', k)]) [''AWSPENDING'']] \<and>
    get_secret_value sid (Some tok) ''AWSPENDING'' st' =
      Inr (secret_string_of [(''key1'', b), (''key2'', c), (''key3'', k)]) \<and>
    json_loads (secret_string_of [(''key1'', b), (''key2'', c), (''key3'', k)]) =
      Inr [(''key1'', b), (''key2'', c), (''key3'', k)]"
proof -
  obtain k g' where gen: "key_generator 16 g = (k, g')" by (cases "key_generator 16 g")
  from key_generator_props [OF gen] have len: "length k = 16" and al: "set k \<subseteq> set chars"
    by simp_all
  have uk: "list_all unescaped k" using al by (rule alnum_unescaped)
  from create_secret_put [OF assms(1-5) gen] obtain st' where
    run: "create_secret sid tok st g = (Inr 0, st', g')" and
    calls: "sm_calls st' = sm_calls st @
      [PutSecretValue sid tok (secret_string_of [(''key1'', b), (''key2'', c), (''key3'', k)]) [''AWSPENDING'']]" and
    pen: "get_secret_value sid (Some tok) ''AWSPENDING'' st' =
      Inr (secret_string_of [(''key1'', b), (''key2'', c), (''key3'', k)])"
    by blast
  have dec: "json_loads (secret_string_of [(''key1'', b), (''key2'', c), (''key3'', k)]) =
      Inr [(''key1'', b), (''key2'', c), (''key3'', k)]"
    using secret_string_of_payload [OF assms(6,7) uk] json_loads_payload [OF assms(6,7) uk] by simp
  from gen len al run calls pen dec show ?thesis by blast
qed

theorem create_secret_chains_witness:
  "get_secret ''MySecret'' ''AWSCURRENT'' (Some ''v2'') (ex_store ex_current_text) = Inr ex_current_text \<and>
   json_loads ex_current_text = Inr [(''key1'', ''a''), (''key2'', ''b''), (''key3'', ''c'')] \<and>
   get_secret_value ''MySecret'' (Some ''v2'') ''AWSPENDING'' (ex_store ex_current_text) =
     Inl ResourceNotFoundException \<and>
   list_all unescaped ''b'' \<and> list_all unescaped ''c'' \<and>
   (\<exists>k g' st'.
      key_generator 16 ex_rng = (k, g') \<and> length k = 16 \<and> set k \<subseteq> set chars \<and>
      create_secret ''MySecret'' ''v2'' (ex_store ex_current_text) ex_rng = (Inr 0, st', g') \<and>
      sm_calls st' = sm_calls (ex_store ex_current_text) @
        [PutSecretValue ''MySecret'' ''v2''
           (secret_string_of [(''key1'', ''b''), (''key2'', ''c''), (''key3'', k)]) [''AWSPENDING'']] \<and>
      get_secret_value ''MySecret'' (Some ''v2'') ''AWSPENDING'' st' =
        Inr (secret_string_of [(''key1'', ''b''), (''key2'', ''c''), (''key3'', k)]) \<and>
      json_loads (secret_string_of [(''key1'', ''b''), (''key2'', ''c''), (''key3'', k)]) =
        Inr [(''key1'', ''b''), (''key2'', ''c''), (''key3'', k)])"
proof -
  have h1: "get_secret ''MySecret'' ''AWSCURRENT'' (Some ''v2'') (ex_store ex_current_text) = Inr ex_current_text"
    by code_simp
  have h2: "json_loads ex_current_text = Inr [(''key1'', ''a''), (''key2'', ''b''), (''key3'', ''c'')]"
    by code_simp
  have h3: "map_of [(''key1'', ''a''), (''key2'', ''b''), (''key3'', ''c'')] ''key2'' = Some ''b''"
    by simp
  have h4: "map_of [(''key1'', ''a''), (''key2'', ''b''), (''key3'', ''c'')] ''key3'' = Some ''c''"
    by simp
  have h5: "get_secret_value ''MySecret'' (Some ''v2'') ''AWSPENDING'' (ex_store ex_current_text) =
     Inl ResourceNotFoundException"
    by code_simp
  have h6: "list_all unescaped ''b''" by code_simp
  have h7: "list_all unescaped ''c''" by code_simp
  from h1 h2 h5 h6 h7 create_secret_chains [OF h1 h2 h3 h4 h5 h6 h7, of ex_rng]
  show ?thesis by blast
qed

text \<open>
  C6. When an invocation of the create step has succeeded, a second invocation with the
  same token on the state it left succeeds too and leaves the secret store, its list of
  writing calls included, and the random source exactly as they were: it puts no
  version and generates no key. The first invocation itself issued no writing call or
  exactly one put call, under the token with the label \<open>AWSPENDING\<close>.
\<close>

theorem create_twice_writes_once:
  assumes "create_secret sid tok st g = (Inr 0, st', g')"
  shows "create_secret sid tok st' g' = (Inr 0, st', g') \<and>
         (sm_calls st' = sm_calls st \<or>
          (\<exists>s. sm_calls st' = sm_calls st @ [PutSecretValue sid tok s [''AWSPENDING'']]))"
  using assms
proof (cases rule: create_secret_success_cases)
  case (exists cur d p)
  then show ?thesis using create_secret_pending_exists by simp
next
  case (put cur d b c k)
  from create_secret_put [OF put] obtain st2 where
    r: "create_secret sid tok st g = (Inr 0, st2, g')" and
    c: "sm_calls st2 = sm_calls st @
      [PutSecretValue sid tok (secret_string_of [(''key1'', b), (''key2'', c), (''key3'', k)]) [''AWSPENDING'']]" and
    p: "get_secret_value sid (Some tok) ''AWSPENDING'' st2 =
      Inr (secret_string_of [(''key1'', b), (''key2'', c), (''key3'', k)])" and
    u: "get_secret sid ''AWSCURRENT'' (Some tok) st2 = Inr cur" by blast
  from r assms have eq: "st2 = st'" by simp
  show ?thesis
    using create_secret_pending_exists [OF u put(2) p, of g'] c eq by auto
qed

theorem create_twice_writes_once_witness:
  "fst (create_secret ''MySecret'' ''v2'' (ex_store ex_current_text) ex_rng) = Inr 0 \<and>
   sm_calls (fst (snd (create_secret ''MySecret'' ''v2'' (ex_store ex_current_text) ex_rng))) =
     [PutSecretValue ''MySecret'' ''v2'' (payload_text ''b'' ''c'' ''DKRYfmt07ELSZgnu'') [''AWSPENDING'']] \<and>
   create_secret ''MySecret'' ''v2''
     (fst (snd (create_secret ''MySecret'' ''v2'' (ex_store ex_current_text) ex_rng)))
     (snd (snd (create_secret ''MySecret'' ''v2'' (ex_store ex_current_text) ex_rng))) =
   (Inr 0,
    fst (snd (create_secret ''MySecret'' ''v2'' (ex_store ex_current_text) ex_rng)),
    snd (snd (create_secret ''MySecret'' ''v2'' (ex_store ex_current_text) ex_rng)))"
proof -
  let ?x = "create_secret ''MySecret'' ''v2'' (ex_store ex_current_text) ex_rng"
  have r: "fst ?x = Inr 0" by code_simp
  have c: "sm_calls (fst (snd ?x)) =
     [PutSecretValue ''MySecret'' ''v2'' (payload_text ''b'' ''c'' ''DKRYfmt07ELSZgnu'') [''AWSPENDING'']]"
    by code_simp
  have h: "?x = (Inr 0, fst (snd ?x), snd (snd ?x))"
    using r by (metis prod.collapse)
  from create_twice_writes_once [OF h] r c show ?thesis by blast
qed

text \<open>
  C10. When the values \<open>b\<close> and \<open>c\<close> that the create step carries over hold only
  characters of the key alphabet, the string it stores, passed through the parse of
  the set step (single quotes turned into double quotes, backslashes removed, then
  decoded), is the dictionary \<open>key1 = b\<close>, \<open>key2 = c\<close>, \<open>key3 = k\<close> with \<open>k\<close> the generated
  key; after the create step that string is what the set step reads as the pending value,
  and the key the set step hands to the rule synchronizer is \<open>k\<close>.
\<close>

theorem create_set_round_trip:
  assumes "get_secret sid ''AWSCURRENT'' (Some tok) st = Inr cur"
    and "json_loads cur = Inr d"
    and "map_of d ''key2'' = Some b"
    and "map_of d ''key3'' = Some c"
    and "get_secret_value sid (Some tok) ''AWSPENDING'' st = Inl ResourceNotFoundException"
    and "set b \<subseteq> set chars"
    and "set c \<subseteq> set chars"
  shows "\<exists>k g' st'.
    key_generator 16 g = (k, g') \<and>
    create_secret sid tok st g = (Inr 0, st', g') \<and>
    get_secret sid ''AWSPENDING'' (Some tok) st' =
      Inr (secret_string_of [(''key1'', b), (''key2'', c), (''key3'', k)]) \<and>
    json_loads (replace_char backslash [] (replace_char squote [dquote]
        (secret_string_of [(''key1'', b), (''key2'', c), (''key3'', k)]))) =
      Inr [(''key1'', b), (''key2'', c), (''key3'', k)] \<and>
    set_secret a sid tok st' est =
      (case set_api_key_in_alb a (Some k) est of
         (Inl e, est') \<Rightarrow> (Inl e, est')
       | (Inr x, est') \<Rightarrow> (Inr 0, est'))"
proof -
  obtain k g' where gen: "key_generator 16 g = (k, g')" by (cases "key_generator 16 g")
  from key_generator_props [OF gen] have al: "set k \<subseteq> set chars" by simp
  let ?new = "[(''key1'', b), (''key2'', c), (''key3'', k)]"
  from create_secret_put [OF assms(1-5) gen, of "Some tok"] obtain st' where
    run: "create_secret sid tok st g = (Inr 0, st', g')" and
    pen: "get_secret sid ''AWSPENDING'' (Some tok) st' = Inr (secret_string_of ?new)"
    by blast
  have dec: "json_loads (replace_char backslash [] (replace_char squote [dquote]
        (secret_string_of ?new))) = Inr ?new"
    using assms(6,7) al by (rule set_parse_payload)
  have push: "set_secret a sid tok st' est =
      (case set_api_key_in_alb a (Some k) est of
         (Inl e, est') \<Rightarrow> (Inl e, est')
       | (Inr x, est') \<Rightarrow> (Inr 0, est'))"
    using pen dec by (rule set_secret_pushes) simp
  from gen run pen dec push show ?thesis by blast
qed

theorem create_set_round_trip_witness:
  "get_secret ''MySecret'' ''AWSCURRENT'' (Some ''v2'') (ex_store ex_current_text) = Inr ex_current_text \<and>
   json_loads ex_current_text = Inr [(''key1'', ''a''), (''key2'', ''b''), (''key3'', ''c'')] \<and>
   get_secret_value ''MySecret'' (Some ''v2'') ''AWSPENDING'' (ex_store ex_current_text) =
     Inl ResourceNotFoundException \<and>
   (\<exists>k g' st'.
      key_generator 16 ex_rng = (k, g') \<and>
      create_secret ''MySecret'' ''v2'' (ex_store ex_current_text) ex_rng = (Inr 0, st', g') \<and>
      get_secret ''MySecret'' ''AWSPENDING'' (Some ''v2'') st' =
        Inr (secret_string_of [(''key1'', ''b''), (''key2'', ''c''), (''key3'', k)]) \<and>
      json_loads (replace_char backslash [] (replace_char squote [dquote]
          (secret_string_of [(''key1'', ''b''), (''key2'', ''c''), (''key3'', k)]))) =
        Inr [(''key1'', ''b''), (''key2'', ''c''), (''key3'', k)] \<and>
      set_secret [] ''MySecret'' ''v2'' st' (ex_elb [ex_key_rule]) =
        (case set_api_key_in_alb [] (Some k) (ex_elb [ex_key_rule]) of
           (Inl e, est') \<Rightarrow> (Inl e, est')
         | (Inr x, est') \<Rightarrow> (Inr 0, est')))"
proof -
  have h1: "get_secret ''MySecret'' ''AWSCURRENT'' (Some ''v2'') (ex_store ex_current_text) = Inr ex_current_text"
    by code_simp
  have h2: "json_loads ex_current_text = Inr [(''key1'', ''a''), (''key2'', ''b''), (''key3'', ''c'')]"
    by code_simp
  have h3: "map_of [(''key1'', ''a''), (''key2'', ''b''), (''key3'', ''c'')] ''key2'' = Some ''b''"
    by simp
  have h4: "map_of [(''key1'', ''a''), (''key2'', ''b''), (''key3'', ''c'')] ''key3'' = Some ''c''"
    by simp
  have h5: "get_secret_value ''MySecret'' (Some ''v2'') ''AWSPENDING'' (ex_store ex_current_text) =
     Inl ResourceNotFoundException"
    by code_simp
  have h6: "set ''b'' \<subseteq> set chars"
    by (simp add: chars_def ascii_uppercase_def ascii_lowercase_def digits_def)
  have h7: "set ''c'' \<subseteq> set chars"
    by (simp add: chars_def ascii_uppercase_def ascii_lowercase_def digits_def)
  from h1 h2 h5 create_set_round_trip [OF h1 h2 h3 h4 h5 h6 h7, of ex_rng "[]" "ex_elb [ex_key_rule]"]
  show ?thesis by blast
qed

end
